theory Spec2Isabelle
  imports Main
begin

section \<open>Interpreter values used by the bot\<close>

text \<open>
  The errors the modelled code can raise without catching them: \<open>date + timedelta\<close> past
  \<open>date.max\<close> (OverflowError), \<open>int(...)\<close> on a string that is no integer literal and
  \<open>date(year, 1, 1)\<close> for a year outside 1..9999 (both ValueError).
\<close>

datatype py_error = OverflowError | ValueError

subsection \<open>Calendar dates\<close>

text \<open>
  A \<open>datetime.date\<close> is modelled by its proleptic Gregorian ordinal (\<open>date.toordinal()\<close>):
  1 is 0001-01-01 and 3652059 is 9999-12-31 (\<open>date.max\<close>). Dates compare as their ordinals
  do, and so do their ISO texts (ten characters, zero padded), which is what the TEXT
  columns of the database hold: every write path stores \<open>d.isoformat()\<close>.
\<close>

type_synonym date = int

definition date_min :: date where
  "date_min = 1"

definition date_max :: date where
  "date_max = 3652059"

definition valid_date :: "date \<Rightarrow> bool" where
  "valid_date d \<longleftrightarrow> date_min \<le> d \<and> d \<le> date_max"

text \<open>\<open>d + timedelta(days=1)\<close>: raises OverflowError past \<open>date.max\<close>.\<close>

definition next_day :: "date \<Rightarrow> py_error + date" where
  "next_day d = (if d + 1 > date_max then Inl OverflowError else Inr (d + 1))"

text \<open>\<open>_days_before_year\<close> of the standard library: days before January 1st of the year.\<close>

definition days_before_year :: "int \<Rightarrow> int" where
  "days_before_year y = (y - 1) * 365 + (y - 1) div 4 - (y - 1) div 100 + (y - 1) div 400"

text \<open>\<open>date(year, 1, 1)\<close> and \<open>date(year, 12, 31)\<close>; ValueError outside 1..9999.\<close>

definition date_jan1 :: "int \<Rightarrow> py_error + date" where
  "date_jan1 y = (if 1 \<le> y \<and> y \<le> 9999 then Inr (days_before_year y + 1) else Inl ValueError)"

definition date_dec31 :: "int \<Rightarrow> py_error + date" where
  "date_dec31 y = (if 1 \<le> y \<and> y \<le> 9999 then Inr (days_before_year (y + 1)) else Inl ValueError)"

text \<open>\<open>d.year\<close>: the year component of \<open>_ord2ymd\<close> of the standard library.\<close>

definition year_of :: "date \<Rightarrow> int" where
  "year_of d =
     (let n = d - 1;
          n400 = n div 146097; n = n mod 146097;
          n100 = n div 36524; n = n mod 36524;
          n4 = n div 1461; n = n mod 1461;
          n1 = n div 365;
          year = n400 * 400 + 1 + n100 * 100 + n4 * 4 + n1
      in if n1 = 4 \<or> n100 = 4 then year - 1 else year)"

subsection \<open>Integers and their decimal text\<close>

definition DIGITS :: string where
  "DIGITS = ''0123456789''"

definition digit_char :: "nat \<Rightarrow> char" where
  "digit_char n = DIGITS ! n"

definition is_digit :: "char \<Rightarrow> bool" where
  "is_digit c \<longleftrightarrow> c \<in> set DIGITS"

definition digit_val :: "char \<Rightarrow> nat" where
  "digit_val c = length (takeWhile (\<lambda>x. x \<noteq> c) DIGITS)"

fun str_nat :: "nat \<Rightarrow> string" where
  "str_nat n = (if n < 10 then [digit_char n] else str_nat (n div 10) @ [digit_char (n mod 10)])"

declare str_nat.simps [simp del]

text \<open>\<open>str(v)\<close> for an integer.\<close>

definition py_str :: "int \<Rightarrow> string" where
  "py_str v = (if v < 0 then CHR ''-'' # str_nat (nat (- v)) else str_nat (nat v))"

text \<open>\<open>s.strip()\<close> with the ASCII white space characters.\<close>

definition is_space :: "char \<Rightarrow> bool" where
  "is_space c \<longleftrightarrow>
     c \<in> set [CHR '' '', CHR 0x09, CHR 0x0A, CHR 0x0B, CHR 0x0C, CHR 0x0D,
                CHR 0x1C, CHR 0x1D, CHR 0x1E, CHR 0x1F]"

definition strip :: "string \<Rightarrow> string" where
  "strip s = rev (dropWhile is_space (rev (dropWhile is_space s)))"

text \<open>
  \<open>int(s)\<close> on a string: white space around it is dropped, then an optional sign, then
  decimal digits, single underscores allowed between digits. None is ValueError.
\<close>

fun parse_digits :: "nat \<Rightarrow> string \<Rightarrow> nat option" where
  "parse_digits acc [] = Some acc"
| "parse_digits acc [c] = (if is_digit c then Some (10 * acc + digit_val c) else None)"
| "parse_digits acc (c # d # cs) =
     (if is_digit c then
        (if d = CHR ''_'' then
           (case cs of [] \<Rightarrow> None
            | e # es \<Rightarrow> if is_digit e then parse_digits (10 * acc + digit_val c) cs else None)
         else parse_digits (10 * acc + digit_val c) (d # cs))
      else None)"

definition parse_nat :: "string \<Rightarrow> nat option" where
  "parse_nat s = (if s = [] then None else parse_digits 0 s)"

definition int_literal :: "string \<Rightarrow> int option" where
  "int_literal s =
     (case s of
        [] \<Rightarrow> None
      | c # cs \<Rightarrow>
          if c = CHR ''-'' then map_option (\<lambda>n. - int n) (parse_nat cs)
          else if c = CHR ''+'' then map_option int (parse_nat cs)
          else map_option int (parse_nat s))"

definition py_int :: "string \<Rightarrow> int option" where
  "py_int s = int_literal (strip s)"

text \<open>\<open>s.split(sep)\<close> with a separator of one character.\<close>

fun split_on :: "char \<Rightarrow> string \<Rightarrow> string list" where
  "split_on sep [] = [[]]"
| "split_on sep (x # xs) =
     (if x = sep then [] # split_on sep xs
      else (case split_on sep xs of
              [] \<Rightarrow> [[x]]
            | w # ws \<Rightarrow> (x # w) # ws))"

section \<open>The database\<close>

text \<open>
  The tables the request engine reads and writes, rows in rowid order. Table
  \<open>vacations\<close> has an AUTOINCREMENT key, so the largest key ever used is kept
  (\<open>vacations_seq\<close>, the entry of \<open>sqlite_sequence\<close>). Table \<open>settings\<close> is keyed
  by its text key. The status is one of the four texts of \<open>STATUS_HUMAN\<close>; roles and
  actions stay texts. The tables \<open>teams\<close>, \<open>vacation_types\<close> and \<open>audit_logs\<close>, the
  row number of a forbidden date and the time stamps are left out: no rule reads them.
\<close>

datatype status = Pending | Approved | Rejected | Cancelled

record user =
  u_id :: int
  u_tg_id :: "int option"
  u_username :: string
  u_full_name :: string
  u_role :: string
  u_team_id :: int

record vacation =
  v_id :: int
  v_team_id :: int
  v_user_id :: int
  v_type_id :: int
  v_start_date :: date
  v_end_date :: date
  v_days :: int
  v_status :: status
  v_admin_comment :: string

record forbidden_date =
  f_team_id :: int
  f_date :: date
  f_note :: string

record admin_action =
  a_admin_tg_id :: int
  a_vacation_id :: int
  a_action :: string

record db =
  users :: "user list"
  vacations :: "vacation list"
  vacations_seq :: int
  forbidden_dates :: "forbidden_date list"
  settings :: "string \<rightharpoonup> string"
  admin_actions :: "admin_action list"

definition ADMIN_ROLES :: "string list" where
  "ADMIN_ROLES = [''CEO'', ''OWNER'', ''TIMLID'', ''TECH'']"

definition DEFAULT_OVERLAP :: string where
  "DEFAULT_OVERLAP = ''allow_all''"

subsection \<open>Settings\<close>

definition get_setting :: "db \<Rightarrow> string \<Rightarrow> string option" where
  "get_setting d key = settings d key"

definition set_setting :: "db \<Rightarrow> string \<Rightarrow> string \<Rightarrow> db" where
  "set_setting d key val = d\<lparr>settings := (settings d)(key \<mapsto> val)\<rparr>"

text \<open>The key of a team's setting: \<open>f"{short_key}:{team_id}"\<close>.\<close>

definition team_key :: "int \<Rightarrow> string \<Rightarrow> string" where
  "team_key team_id short_key = short_key @ '':'' @ py_str team_id"

definition get_team_setting :: "db \<Rightarrow> int \<Rightarrow> string \<Rightarrow> string option \<Rightarrow> string" where
  "get_team_setting d team_id short_key dflt =
     (case get_setting d (team_key team_id short_key) of
        Some val \<Rightarrow> val
      | None \<Rightarrow> (case dflt of Some v \<Rightarrow> v | None \<Rightarrow> []))"

definition set_team_setting :: "db \<Rightarrow> int \<Rightarrow> string \<Rightarrow> string \<Rightarrow> db" where
  "set_team_setting d team_id short_key val = set_setting d (team_key team_id short_key) val"

section \<open>Business rules\<close>

text \<open>What the bot sends: the texts are kept as their kind and the values they cite.\<close>

datatype message =
    EndBeforeStart
  | ForbiddenInRange date
  | MaxSingleExceeded int
  | OverlapDenyAll string date date
  | OverlapSameRole string date date string
  | YearLimitExceeded int int int
  | RequestSubmitted int
  | NewRequest int user int date date int string
  | Decision int status string

type_synonym sent = "int option \<times> message"

definition dates_overlap :: "date \<Rightarrow> date \<Rightarrow> date \<Rightarrow> date \<Rightarrow> bool" where
  "dates_overlap a_start a_end b_start b_end \<longleftrightarrow> \<not> (a_end < b_start \<or> b_end < a_start)"

text \<open>
  The loop of \<open>is_range_forbidden\<close> over the days of the range; \<open>forbidden\<close> is the set
  built from the team's rows.
\<close>

function forbidden_scan :: "date list \<Rightarrow> date \<Rightarrow> date \<Rightarrow> py_error + date option" where
  "forbidden_scan forbidden d end_d =
     (if d \<le> end_d then
        (if d \<in> set forbidden then Inr (Some d)
         else (case next_day d of
                 Inl e \<Rightarrow> Inl e
               | Inr d' \<Rightarrow> forbidden_scan forbidden d' end_d))
      else Inr None)"
  by pat_completeness auto
termination
  by (relation "measure (\<lambda>(forbidden, d, end_d). nat (end_d + 1 - d))")
     (auto simp: next_day_def split: if_splits)

declare forbidden_scan.simps [simp del]

definition is_range_forbidden :: "db \<Rightarrow> int \<Rightarrow> date \<Rightarrow> date \<Rightarrow> py_error + date option" where
  "is_range_forbidden d team_id start_d end_d =
     forbidden_scan (map f_date (filter (\<lambda>r. f_team_id r = team_id) (forbidden_dates d)))
       start_d end_d"

text \<open>\<open>FROM vacations v JOIN users u ON v.user_id = u.id\<close>.\<close>

definition join_users :: "vacation list \<Rightarrow> user list \<Rightarrow> (vacation \<times> user) list" where
  "join_users vs us =
     concat (map (\<lambda>v. map (Pair v) (filter (\<lambda>u. u_id u = v_user_id v) us)) vs)"

fun overlap_scan :: "string \<Rightarrow> string \<Rightarrow> date \<Rightarrow> date \<Rightarrow> (vacation \<times> user) list \<Rightarrow> message option" where
  "overlap_scan policy role start_d end_d [] = None"
| "overlap_scan policy role start_d end_d ((v, u) # rows) =
     (if dates_overlap start_d end_d (v_start_date v) (v_end_date v) then
        (if policy = ''deny_all'' then
           Some (OverlapDenyAll (u_full_name u) (v_start_date v) (v_end_date v))
         else if policy = ''deny_same_role'' \<and> u_role u = role then
           Some (OverlapSameRole (u_full_name u) (v_start_date v) (v_end_date v) role)
         else overlap_scan policy role start_d end_d rows)
      else overlap_scan policy role start_d end_d rows)"

definition overlap_rows :: "db \<Rightarrow> int \<Rightarrow> (vacation \<times> user) list" where
  "overlap_rows d team_id =
     filter (\<lambda>(v, u). v_team_id v = team_id \<and> (v_status v = Pending \<or> v_status v = Approved))
       (join_users (vacations d) (users d))"

definition check_overlap_policy :: "db \<Rightarrow> int \<Rightarrow> date \<Rightarrow> date \<Rightarrow> string \<Rightarrow> message option" where
  "check_overlap_policy d team_id start_d end_d role =
     (let policy = get_team_setting d team_id ''overlap_policy'' (Some DEFAULT_OVERLAP)
      in if policy = ''allow_all'' then None
         else overlap_scan policy role start_d end_d (overlap_rows d team_id))"

text \<open>
  \<open>user_year_used_days\<close>: \<open>SUM(days)\<close> over the user's approved rows whose start date is
  \<open>BETWEEN\<close> January 1st and December 31st of the year.
\<close>

definition user_year_used_days :: "db \<Rightarrow> int \<Rightarrow> int \<Rightarrow> py_error + int" where
  "user_year_used_days d user_id year =
     (case date_jan1 year of
        Inl e \<Rightarrow> Inl e
      | Inr start_d \<Rightarrow>
          (case date_dec31 year of
             Inl e \<Rightarrow> Inl e
           | Inr end_d \<Rightarrow>
               Inr (sum_list (map v_days
                  (filter (\<lambda>v. v_user_id v = user_id \<and> v_status v = Approved
                                \<and> start_d \<le> v_start_date v \<and> v_start_date v \<le> end_d)
                     (vacations d))))))"

section \<open>Creating a request\<close>

definition insert_vacation :: "db \<Rightarrow> int \<Rightarrow> int \<Rightarrow> int \<Rightarrow> date \<Rightarrow> date \<Rightarrow> int \<Rightarrow> status \<Rightarrow> string \<Rightarrow> db \<times> int" where
  "insert_vacation d team_id user_id type_id start_d end_d days st comment =
     (let vac_id = vacations_seq d + 1
      in (d\<lparr>vacations := vacations d @
               [\<lparr>v_id = vac_id, v_team_id = team_id, v_user_id = user_id, v_type_id = type_id,
                 v_start_date = start_d, v_end_date = end_d, v_days = days, v_status = st,
                 v_admin_comment = comment\<rparr>],
             vacations_seq := vac_id\<rparr>, vac_id))"

text \<open>The admins of the team that have a chat id get the new request.\<close>

definition notify_admins_and_log :: "db \<Rightarrow> user \<Rightarrow> int \<Rightarrow> int \<Rightarrow> date \<Rightarrow> date \<Rightarrow> int \<Rightarrow> string \<Rightarrow> sent list" where
  "notify_admins_and_log d usr vac_id type_id start_d end_d days comment =
     map (\<lambda>a. (u_tg_id a, NewRequest vac_id usr type_id start_d end_d days comment))
       (filter (\<lambda>a. u_team_id a = u_team_id usr \<and> u_role a \<in> set ADMIN_ROLES \<and> u_tg_id a \<noteq> None)
          (users d))"

definition reject :: "db \<Rightarrow> user \<Rightarrow> message \<Rightarrow> py_error + db \<times> sent list" where
  "reject d usr m = Inr (d, [(u_tg_id usr, m)])"

definition process_apply_submission ::
  "db \<Rightarrow> user \<Rightarrow> int \<Rightarrow> date \<Rightarrow> date \<Rightarrow> string \<Rightarrow> py_error + db \<times> sent list" where
  "process_apply_submission d usr type_id start_d end_d comment =
     (if end_d < start_d then reject d usr EndBeforeStart
      else
        let days = end_d - start_d + 1 in
        case is_range_forbidden d (u_team_id usr) start_d end_d of
          Inl e \<Rightarrow> Inl e
        | Inr (Some forbid) \<Rightarrow> reject d usr (ForbiddenInRange forbid)
        | Inr None \<Rightarrow>
        (case py_int (get_team_setting d (u_team_id usr) ''max_single_days'' (Some ''14'')) of
          None \<Rightarrow> Inl ValueError
        | Some max_single \<Rightarrow>
        if days > max_single then reject d usr (MaxSingleExceeded max_single)
        else
        (case check_overlap_policy d (u_team_id usr) start_d end_d (u_role usr) of
          Some overlap_msg \<Rightarrow> reject d usr overlap_msg
        | None \<Rightarrow>
        (case user_year_used_days d (u_id usr) (year_of start_d) of
          Inl e \<Rightarrow> Inl e
        | Inr used \<Rightarrow>
        (case py_int (get_team_setting d (u_team_id usr) ''max_year_days'' (Some ''28'')) of
          None \<Rightarrow> Inl ValueError
        | Some max_year \<Rightarrow>
        if used + days > max_year then
          reject d usr (YearLimitExceeded (year_of start_d) used max_year)
        else
          let (d', vac_id) = insert_vacation d (u_team_id usr) (u_id usr) type_id start_d end_d
                               days Pending comment
          in Inr (d', (u_tg_id usr, RequestSubmitted vac_id)
                      # notify_admins_and_log d' usr vac_id type_id start_d end_d days comment))))))"


section \<open>Admin decisions\<close>

datatype admin_reply =
    ReplyBadData
  | ReplyBadId
  | ReplyChosen string int
  | ReplyNoActiveAction
  | ReplyNotFound
  | ReplyMarked int status
  | ReplyDateFormat
  | ReplyDateAllowed
  | ReplyRangeMissing
  | ReplyRangeSaved
  | ReplySendInteger
  | ReplyYearLimitSet int
  | ReplySingleLimitSet int
  | ReplyError

text \<open>The dash shown in place of an empty comment (U+2014 in UTF-8).\<close>

definition DASH :: string where
  "DASH = [CHR 0xE2, CHR 0x80, CHR 0x94]"

text \<open>\<open>INSERT OR REPLACE INTO admin_actions\<close>: the row in conflict on the key goes first.\<close>

definition replace_admin_action :: "db \<Rightarrow> int \<Rightarrow> int \<Rightarrow> string \<Rightarrow> db" where
  "replace_admin_action d admin_tg vac_id action =
     d\<lparr>admin_actions := filter (\<lambda>a. a_admin_tg_id a \<noteq> admin_tg) (admin_actions d) @
          [\<lparr>a_admin_tg_id = admin_tg, a_vacation_id = vac_id, a_action = action\<rparr>]\<rparr>"

definition select_admin_action :: "db \<Rightarrow> int \<Rightarrow> admin_action option" where
  "select_admin_action d admin_tg = find (\<lambda>a. a_admin_tg_id a = admin_tg) (admin_actions d)"

definition delete_admin_actions :: "db \<Rightarrow> int \<Rightarrow> db" where
  "delete_admin_actions d admin_tg =
     d\<lparr>admin_actions := filter (\<lambda>a. a_admin_tg_id a \<noteq> admin_tg) (admin_actions d)\<rparr>"

text \<open>\<open>SELECT ... FROM vacations v JOIN users u ON v.user_id = u.id WHERE v.id = ?\<close>, first row.\<close>

definition select_vacation_user :: "db \<Rightarrow> int \<Rightarrow> (vacation \<times> user) option" where
  "select_vacation_user d vac_id =
     find (\<lambda>(v, u). v_id v = vac_id) (join_users (vacations d) (users d))"

text \<open>\<open>UPDATE vacations SET status = ?, admin_comment = ? WHERE id = ?\<close>.\<close>

definition update_vacation :: "db \<Rightarrow> int \<Rightarrow> status \<Rightarrow> string \<Rightarrow> db" where
  "update_vacation d vac_id st comment =
     d\<lparr>vacations := map (\<lambda>v. if v_id v = vac_id
                                then v\<lparr>v_status := st, v_admin_comment := comment\<rparr> else v)
                        (vacations d)\<rparr>"

definition admin_action_cb :: "db \<Rightarrow> int \<Rightarrow> string \<Rightarrow> db \<times> admin_reply" where
  "admin_action_cb d from_id data =
     (case split_on (CHR '':'') data of
        [p0, action, vac_id_s] \<Rightarrow>
          (case py_int vac_id_s of
             None \<Rightarrow> (d, ReplyBadId)
           | Some vac_id \<Rightarrow>
               (replace_admin_action d from_id vac_id action, ReplyChosen action vac_id))
      | _ \<Rightarrow> (d, ReplyBadData))"

text \<open>The result is the pair \<open>(ok, status)\<close> of the source: None when the request is not found.\<close>

definition finalize_admin_decision ::
  "db \<Rightarrow> int \<Rightarrow> int \<Rightarrow> string \<Rightarrow> string \<Rightarrow> db \<times> sent list \<times> status option" where
  "finalize_admin_decision d admin_tg vac_id action comment =
     (case select_vacation_user d vac_id of
        None \<Rightarrow> (d, [], None)
      | Some (v, u) \<Rightarrow>
          let st = (if action = ''approve'' then Approved else Rejected);
              d1 = update_vacation d vac_id st comment;
              d2 = delete_admin_actions d1 admin_tg
          in (d2, [(u_tg_id u, Decision vac_id st (if comment = [] then DASH else comment))],
              Some st))"

definition admin_skip_comment_cb :: "db \<Rightarrow> int \<Rightarrow> db \<times> sent list \<times> admin_reply list" where
  "admin_skip_comment_cb d admin_tg =
     (case select_admin_action d admin_tg of
        None \<Rightarrow> (d, [], [ReplyNoActiveAction])
      | Some row \<Rightarrow>
          let vac_id = a_vacation_id row; action = a_action row; comment = [] in
          (case select_vacation_user d vac_id of
             None \<Rightarrow> (delete_admin_actions d admin_tg, [], [ReplyNotFound])
           | Some (v, u) \<Rightarrow>
               let st = (if action = ''approve'' then Approved else Rejected);
                   d1 = update_vacation d vac_id st comment;
                   d2 = delete_admin_actions d1 admin_tg
               in (d2, [(u_tg_id u, Decision vac_id st DASH)], [ReplyMarked vac_id st])))"

subsection \<open>Text sent by an admin\<close>

text \<open>
  \<open>context.user_data\<close>: the wizard step the admin is in and the range the forbid wizard
  has collected.
\<close>

record user_data =
  admin_wizard :: "string option"
  forbid_range :: "(date \<times> date) option"

definition is_admin_role :: "string \<Rightarrow> bool" where
  "is_admin_role role \<longleftrightarrow> role \<in> set ADMIN_ROLES"

definition get_user_by_tg_id :: "db \<Rightarrow> int \<Rightarrow> user option" where
  "get_user_by_tg_id d tg_id = find (\<lambda>u. u_tg_id u = Some tg_id) (users d)"

text \<open>\<open>DELETE FROM forbidden_dates WHERE team_id = ? AND date = ?\<close>.\<close>

definition delete_forbidden_date :: "db \<Rightarrow> int \<Rightarrow> date \<Rightarrow> db" where
  "delete_forbidden_date d team_id x =
     d\<lparr>forbidden_dates := filter (\<lambda>r. \<not> (f_team_id r = team_id \<and> f_date r = x))
                               (forbidden_dates d)\<rparr>"

text \<open>
  The loop that stores a range, one row a day. It runs inside one transaction: an error
  leaves the table as it was.
\<close>

function insert_forbidden_range :: "forbidden_date list \<Rightarrow> int \<Rightarrow> string \<Rightarrow> date \<Rightarrow> date \<Rightarrow> py_error + forbidden_date list" where
  "insert_forbidden_range rows team_id note d d2 =
     (if d \<le> d2 then
        (case next_day d of
           Inl e \<Rightarrow> Inl e
         | Inr d' \<Rightarrow>
             insert_forbidden_range (rows @ [\<lparr>f_team_id = team_id, f_date = d, f_note = note\<rparr>])
               team_id note d' d2)
      else Inr rows)"
  by pat_completeness auto
termination
  by (relation "measure (\<lambda>(rows, team_id, note, d, d2). nat (d2 + 1 - d))")
     (auto simp: next_day_def split: if_splits)

declare insert_forbidden_range.simps [simp del]

text \<open>
  \<open>admin_text_handler\<close>, for the wizard steps that touch the tables of this model
  (\<open>unforbid_date\<close>, the comment of a decision, \<open>forbid_note\<close>, \<open>set_max_year\<close>,
  \<open>set_max_single\<close>). \<open>fromisoformat\<close> is the date parser of the standard library, None
  where it raises. The result is None for a wizard step outside this model (the steps
  that collect a user name, a date range or a leave type).
\<close>

definition admin_text_handler ::
  "(string \<Rightarrow> date option) \<Rightarrow> db \<Rightarrow> user_data \<Rightarrow> int \<Rightarrow> string
     \<Rightarrow> (db \<times> user_data \<times> sent list \<times> admin_reply list) option" where
  "admin_text_handler fromisoformat d ud admin_tg raw_text =
     (let caller = get_user_by_tg_id d admin_tg;
          wizard = admin_wizard ud;
          not_admin = (case caller of None \<Rightarrow> True | Some c \<Rightarrow> \<not> is_admin_role (u_role c))
      in
      if not_admin \<and> wizard \<notin> {Some ''add_user_wait_username'', Some ''forbid_date_range_reg'',
                                 Some ''forbid_note_reg''}
      then Some (d, ud, [], [])
      else
        let text = strip raw_text in
        if wizard = Some ''unforbid_date'' then
          (case caller of
             None \<Rightarrow> Some (d, ud, [], [])
           | Some c \<Rightarrow>
               (case fromisoformat text of
                  None \<Rightarrow> Some (d, ud, [], [ReplyDateFormat])
                | Some x \<Rightarrow>
                    Some (delete_forbidden_date d (u_team_id c) x,
                          ud\<lparr>admin_wizard := None\<rparr>, [], [ReplyDateAllowed])))
        else
        (case select_admin_action d admin_tg of
           Some row \<Rightarrow>
             let vac_id = a_vacation_id row; action = a_action row;
                 comment = (if text = ''/skip'' then [] else text);
                 (d', out, res) = finalize_admin_decision d admin_tg vac_id action comment
             in (case res of
                   Some st \<Rightarrow> Some (d', ud, out, [ReplyMarked vac_id st])
                 | None \<Rightarrow> Some (d', ud, out, []))
         | None \<Rightarrow>
        (case wizard of
           None \<Rightarrow> Some (d, ud, [], [])
         | Some w \<Rightarrow>
        if w = [] then Some (d, ud, [], [])
        else
        (case caller of
           None \<Rightarrow> None
         | Some c \<Rightarrow>
        if w = ''forbid_note'' then
          (case forbid_range ud of
             None \<Rightarrow> Some (d, ud, [], [ReplyRangeMissing])
           | Some (d1, d2) \<Rightarrow>
               (case insert_forbidden_range (forbidden_dates d) (u_team_id c) text d1 d2 of
                  Inl e \<Rightarrow> Some (d, ud, [], [ReplyError])
                | Inr rows \<Rightarrow>
                    Some (d\<lparr>forbidden_dates := rows\<rparr>,
                          ud\<lparr>forbid_range := None, admin_wizard := None\<rparr>, [],
                          [ReplyRangeSaved])))
        else if w = ''set_max_year'' then
          (case py_int text of
             None \<Rightarrow> Some (d, ud, [], [ReplySendInteger])
           | Some v \<Rightarrow>
               Some (set_team_setting d (u_team_id c) ''max_year_days'' (py_str v),
                     ud\<lparr>admin_wizard := None\<rparr>, [], [ReplyYearLimitSet v]))
        else if w = ''set_max_single'' then
          (case py_int text of
             None \<Rightarrow> Some (d, ud, [], [ReplySendInteger])
           | Some v \<Rightarrow>
               Some (set_team_setting d (u_team_id c) ''max_single_days'' (py_str v),
                     ud\<lparr>admin_wizard := None\<rparr>, [], [ReplySingleLimitSet v]))
        else None))))"


section \<open>Specification predicates and example data\<close>



text \<open>
  A team of three; request A of Alice is approved for 2025-07-01 to 2025-07-10
  (ordinals 739433 to 739442).
\<close>

definition alice :: user where
  "alice = \<lparr>u_id = 1, u_tg_id = Some 101, u_username = ''alice'', u_full_name = ''Alice'',
            u_role = ''BAER'', u_team_id = 1\<rparr>"

definition bob :: user where
  "bob = \<lparr>u_id = 2, u_tg_id = Some 102, u_username = ''bob'', u_full_name = ''Bob'',
          u_role = ''DESIGNER'', u_team_id = 1\<rparr>"

definition carol :: user where
  "carol = \<lparr>u_id = 3, u_tg_id = Some 103, u_username = ''carol'', u_full_name = ''Carol'',
            u_role = ''CEO'', u_team_id = 1\<rparr>"

definition request_a :: vacation where
  "request_a = \<lparr>v_id = 1, v_team_id = 1, v_user_id = 1, v_type_id = 1,
                v_start_date = 739433, v_end_date = 739442, v_days = 10, v_status = Approved,
                v_admin_comment = []\<rparr>"


text \<open>
  The rule pipeline as the specification describes it: the rules in their fixed order, the
  first rejection wins. Each rule is the corresponding step of
  \<open>process_apply_submission\<close> on its own; an error of a rule ends the run.
\<close>

fun first_rejection :: "(py_error + message option) list \<Rightarrow> py_error + message option" where
  "first_rejection [] = Inr None"
| "first_rejection (Inl err # rules) = Inl err"
| "first_rejection (Inr (Some reason) # rules) = Inr (Some reason)"
| "first_rejection (Inr None # rules) = first_rejection rules"

definition rule_forbidden :: "db \<Rightarrow> user \<Rightarrow> date \<Rightarrow> date \<Rightarrow> py_error + message option" where
  "rule_forbidden d usr start_d end_d =
     (case is_range_forbidden d (u_team_id usr) start_d end_d of
        Inl err \<Rightarrow> Inl err
      | Inr found \<Rightarrow> Inr (map_option ForbiddenInRange found))"

definition rule_cap :: "db \<Rightarrow> user \<Rightarrow> date \<Rightarrow> date \<Rightarrow> py_error + message option" where
  "rule_cap d usr start_d end_d =
     (case py_int (get_team_setting d (u_team_id usr) ''max_single_days'' (Some ''14'')) of
        None \<Rightarrow> Inl ValueError
      | Some cap \<Rightarrow>
          Inr (if end_d - start_d + 1 > cap then Some (MaxSingleExceeded cap) else None))"

definition rule_overlap :: "db \<Rightarrow> user \<Rightarrow> date \<Rightarrow> date \<Rightarrow> py_error + message option" where
  "rule_overlap d usr start_d end_d =
     Inr (check_overlap_policy d (u_team_id usr) start_d end_d (u_role usr))"

definition rule_quota :: "db \<Rightarrow> user \<Rightarrow> date \<Rightarrow> date \<Rightarrow> py_error + message option" where
  "rule_quota d usr start_d end_d =
     (case user_year_used_days d (u_id usr) (year_of start_d) of
        Inl err \<Rightarrow> Inl err
      | Inr used \<Rightarrow>
          (case py_int (get_team_setting d (u_team_id usr) ''max_year_days'' (Some ''28'')) of
             None \<Rightarrow> Inl ValueError
           | Some quota \<Rightarrow>
               Inr (if used + (end_d - start_d + 1) > quota
                    then Some (YearLimitExceeded (year_of start_d) used quota) else None)))"

definition validate :: "db \<Rightarrow> user \<Rightarrow> date \<Rightarrow> date \<Rightarrow> py_error + message option" where
  "validate d usr start_d end_d =
     (if end_d < start_d then Inr (Some EndBeforeStart)
      else first_rejection
             [rule_forbidden d usr start_d end_d, rule_cap d usr start_d end_d,
              rule_overlap d usr start_d end_d, rule_quota d usr start_d end_d])"

text \<open>The request a submission creates, and the database with it.\<close>

definition new_request :: "db \<Rightarrow> user \<Rightarrow> int \<Rightarrow> date \<Rightarrow> date \<Rightarrow> string \<Rightarrow> vacation" where
  "new_request d usr type_id start_d end_d comment =
     \<lparr>v_id = vacations_seq d + 1, v_team_id = u_team_id usr, v_user_id = u_id usr,
      v_type_id = type_id, v_start_date = start_d, v_end_date = end_d,
      v_days = end_d - start_d + 1, v_status = Pending, v_admin_comment = comment\<rparr>"

definition with_request :: "db \<Rightarrow> vacation \<Rightarrow> db" where
  "with_request d v = d\<lparr>vacations := vacations d @ [v], vacations_seq := v_id v\<rparr>"

text \<open>
  \<open>AnnualUsedDays\<close> as the specification describes it: the days of the user's approved
  requests whose start date falls in the year.
\<close>

definition annual_used_days :: "db \<Rightarrow> int \<Rightarrow> int \<Rightarrow> int" where
  "annual_used_days d user_id year =
     sum_list (map v_days
       (filter (\<lambda>v. v_user_id v = user_id \<and> v_status v = Approved \<and> year_of (v_start_date v) = year)
          (vacations d)))"

text \<open>Every date a request row holds is a date of the calendar.\<close>

definition dates_valid :: "db \<Rightarrow> bool" where
  "dates_valid d \<longleftrightarrow>
     list_all (\<lambda>v. valid_date (v_start_date v) \<and> valid_date (v_end_date v)) (vacations d)"

text \<open>The team with default settings: no row in \<open>settings\<close>, nothing forbidden.\<close>

definition db_default :: db where
  "db_default = \<lparr>users = [alice, bob, carol], vacations = [request_a], vacations_seq = 1,
     forbidden_dates = [], settings = Map.empty, admin_actions = []\<rparr>"

text \<open>
  Alice's year 2025 with an annual quota of 12 days: request A approved (10 days), request
  B pending (2025-08-01 to 2025-08-05), request C rejected (2025-08-10 to 2025-08-12).
\<close>

definition request_b :: vacation where
  "request_b = \<lparr>v_id = 2, v_team_id = 1, v_user_id = 1, v_type_id = 1,
                v_start_date = 739464, v_end_date = 739468, v_days = 5, v_status = Pending,
                v_admin_comment = []\<rparr>"

definition request_c :: vacation where
  "request_c = \<lparr>v_id = 3, v_team_id = 1, v_user_id = 1, v_type_id = 1,
                v_start_date = 739473, v_end_date = 739475, v_days = 3, v_status = Rejected,
                v_admin_comment = ''no''\<rparr>"

definition db_quota :: db where
  "db_quota = \<lparr>users = [alice, bob, carol], vacations = [request_a, request_b, request_c],
     vacations_seq = 3, forbidden_dates = [], settings = [''max_year_days:1'' \<mapsto> ''12''],
     admin_actions = []\<rparr>"

text \<open>
  The status a decision writes (\<open>'approved' if action == 'approve' else 'rejected'\<close>), and
  the single slot of the decision coordinator: no admin has two rows in
  \<open>admin_actions\<close>.
\<close>

definition decided_status :: "string \<Rightarrow> status" where
  "decided_status action = (if action = ''approve'' then Approved else Rejected)"

definition decide :: "int \<Rightarrow> string \<Rightarrow> string \<Rightarrow> vacation \<Rightarrow> vacation" where
  "decide vac_id action comment r =
     (if v_id r = vac_id
      then r\<lparr>v_status := decided_status action, v_admin_comment := comment\<rparr> else r)"

definition single_slot :: "db \<Rightarrow> bool" where
  "single_slot d \<longleftrightarrow> distinct (map a_admin_tg_id (admin_actions d))"

definition actions_of :: "db \<Rightarrow> int \<Rightarrow> admin_action list" where
  "actions_of d admin_tg = filter (\<lambda>a. a_admin_tg_id a = admin_tg) (admin_actions d)"

text \<open>
  Carol, an admin, has recorded a decision on request 7, which no longer exists; she is
  in no wizard. No text is a date for the parser here.
\<close>

definition db_stale :: db where
  "db_stale = \<lparr>users = [alice, bob, carol], vacations = [], vacations_seq = 7,
     forbidden_dates = [], settings = Map.empty,
     admin_actions = [\<lparr>a_admin_tg_id = 103, a_vacation_id = 7, a_action = ''approve''\<rparr>]\<rparr>"

definition no_wizard :: user_data where
  "no_wizard = \<lparr>admin_wizard = None, forbid_range = None\<rparr>"

definition no_dates :: "string \<Rightarrow> date option" where
  "no_dates s = None"
text \<open>Two pending requests: request B of Alice and request D of Bob.\<close>

definition request_d :: vacation where
  "request_d = \<lparr>v_id = 4, v_team_id = 1, v_user_id = 2, v_type_id = 1,
                v_start_date = 739500, v_end_date = 739502, v_days = 3, v_status = Pending,
                v_admin_comment = ''trip''\<rparr>"

definition db_pending :: db where
  "db_pending = \<lparr>users = [alice, bob, carol], vacations = [request_b, request_d],
     vacations_seq = 4, forbidden_dates = [], settings = Map.empty, admin_actions = []\<rparr>"

text \<open>The forbidden dates of a team: the union of its rows.\<close>

definition forbidden_set :: "db \<Rightarrow> int \<Rightarrow> date set" where
  "forbidden_set d team_id =
     set (map f_date (filter (\<lambda>r. f_team_id r = team_id) (forbidden_dates d)))"



section \<open>Cancelling a request\<close>

text \<open>
  Modelled from the spec: the operation \<open>CancelRequest(requestId, byUser)\<close>. The source
  has no cancel operation (nothing in it writes the status \<open>cancelled\<close>; the word
  occurs only in the table of status labels), so this is the specification's contract:
  the operation fails with NotOwner if \<open>byUser\<close> did not create the request and with
  NotPending if the request is already decided; a pending request of \<open>byUser\<close> becomes
  cancelled. A request that does not exist is reported as not found.
\<close>

datatype cancel_error = RequestNotFound | NotOwner | NotPending

definition cancel_request :: "db \<Rightarrow> int \<Rightarrow> int \<Rightarrow> cancel_error + db" where
  "cancel_request d request_id by_user =
     (case find (\<lambda>v. v_id v = request_id) (vacations d) of
        None \<Rightarrow> Inl RequestNotFound
      | Some v \<Rightarrow>
          if v_user_id v \<noteq> by_user then Inl NotOwner
          else if v_status v \<noteq> Pending then Inl NotPending
          else Inr (d\<lparr>vacations := map (\<lambda>r. if v_id r = request_id
                                              then r\<lparr>v_status := Cancelled\<rparr> else r)
                                      (vacations d)\<rparr>))"

section \<open>Writing the numeric settings\<close>

text \<open>
  The write paths of \<open>settings\<close> besides the admin wizards: the defaults of \<open>init_db\<close>
  (\<open>INSERT OR IGNORE\<close>, for the default team), the defaults \<open>reg_team_name\<close> stores for
  a new team, and the two steps of the bootstrap conversation. The team is the caller's.
\<close>

definition insert_or_ignore_setting :: "db \<Rightarrow> string \<Rightarrow> string \<Rightarrow> db" where
  "insert_or_ignore_setting d key val =
     (case settings d key of None \<Rightarrow> set_setting d key val | Some old \<Rightarrow> d)"

definition init_db_settings :: "db \<Rightarrow> int \<Rightarrow> db" where
  "init_db_settings d default_team_id =
     (let d1 = insert_or_ignore_setting d (team_key default_team_id ''max_year_days'') ''28'';
          d2 = insert_or_ignore_setting d1 (team_key default_team_id ''max_single_days'') ''14''
      in insert_or_ignore_setting d2 (team_key default_team_id ''overlap_policy'') DEFAULT_OVERLAP)"

definition reg_team_name_settings :: "db \<Rightarrow> int \<Rightarrow> db" where
  "reg_team_name_settings d team_id =
     (let d1 = set_team_setting d team_id ''max_year_days'' ''28'';
          d2 = set_team_setting d1 team_id ''max_single_days'' ''14''
      in set_team_setting d2 team_id ''overlap_policy'' DEFAULT_OVERLAP)"

datatype boot_state = BOOT_MAX_YEAR | BOOT_MAX_SINGLE | BOOT_OVERLAP

definition boot_max_year :: "db \<Rightarrow> int \<Rightarrow> string \<Rightarrow> db \<times> boot_state" where
  "boot_max_year d team_id raw_text =
     (case py_int (strip raw_text) of
        None \<Rightarrow> (d, BOOT_MAX_YEAR)
      | Some v \<Rightarrow> (set_team_setting d team_id ''max_year_days'' (py_str v), BOOT_MAX_SINGLE))"

definition boot_max_single :: "db \<Rightarrow> int \<Rightarrow> string \<Rightarrow> db \<times> boot_state" where
  "boot_max_single d team_id raw_text =
     (case py_int (strip raw_text) of
        None \<Rightarrow> (d, BOOT_MAX_SINGLE)
      | Some v \<Rightarrow> (set_team_setting d team_id ''max_single_days'' (py_str v), BOOT_OVERLAP))"

text \<open>
  The databases the bot can reach from an empty \<open>settings\<close> table: by the write paths
  above, by a text of an admin, by a change of the overlap policy (its three writers
  store a policy under the key \<open>overlap_policy\<close>), and by any step that leaves
  \<open>settings\<close> as it is (submissions, decisions, changes of users and forbidden dates).
\<close>

inductive reachable :: "db \<Rightarrow> bool" where
  fresh: "settings d = Map.empty \<Longrightarrow> reachable d"
| init_db: "reachable d \<Longrightarrow> reachable (init_db_settings d team_id)"
| reg_team_name: "reachable d \<Longrightarrow> reachable (reg_team_name_settings d team_id)"
| boot_year: "reachable d \<Longrightarrow> reachable (fst (boot_max_year d team_id raw_text))"
| boot_single: "reachable d \<Longrightarrow> reachable (fst (boot_max_single d team_id raw_text))"
| admin_text:
    "reachable d \<Longrightarrow>
     admin_text_handler fromisoformat d ud admin_tg raw_text = Some (d', ud', out, replies) \<Longrightarrow>
     reachable d'"
| overlap_policy: "reachable d \<Longrightarrow> reachable (set_team_setting d team_id ''overlap_policy'' pol)"
| other_tables: "reachable d \<Longrightarrow> settings d' = settings d \<Longrightarrow> reachable d'"

text \<open>The keys of the two numeric settings, and what a reachable table holds under them.\<close>

definition numeric_key :: "string \<Rightarrow> bool" where
  "numeric_key key \<longleftrightarrow>
     (\<exists>team_id. key = team_key team_id ''max_year_days'') \<or>
     (\<exists>team_id. key = team_key team_id ''max_single_days'')"

definition numeric_settings_ok :: "db \<Rightarrow> bool" where
  "numeric_settings_ok d \<longleftrightarrow>
     (\<forall>key val. settings d key = Some val \<longrightarrow> numeric_key key \<longrightarrow> (\<exists>v. val = py_str v))"

text \<open>Carol in the wizard that sets the annual quota.\<close>

definition set_max_year_wizard :: user_data where
  "set_max_year_wizard = \<lparr>admin_wizard = Some ''set_max_year'', forbid_range = None\<rparr>"
definition db_year_30 :: db where
  "db_year_30 = set_team_setting db_default 1 ''max_year_days'' ''30''"

section \<open>Properties\<close>

subsection \<open>The calendar\<close>

lemma div_decomp: "0 \<le> r \<Longrightarrow> r < k \<Longrightarrow> (k * q + r) div k = (q::int)"
  by simp

lemma div_succ_le: "0 < k \<Longrightarrow> (n + 1) div k \<le> n div k + (1::int)"
proof -
  assume k: "0 < k"
  then have "(n + 1) div k \<le> (n + k) div k" by (intro zdiv_mono1) auto
  also have "\<dots> = n div k + 1" using k div_add_self2 [of k n] by simp
  finally show ?thesis .
qed

lemma leap_count_mono: "n div 4 - n div 100 + n div 400 \<le> (n + 1) div 4 - (n + 1) div 100 + (n + 1) div (400::int)"
proof -
  define m m' where "m = n div 4" and "m' = (n + 1) div 4"
  define p p' where "p = m div 25" and "p' = m' div 25"
  have n100: "n div 100 = p" "(n + 1) div 100 = p'"
    using zdiv_zmult2_eq [of 25 n 4] zdiv_zmult2_eq [of 25 "n + 1" 4]
    by (simp_all add: p_def p'_def m_def m'_def)
  have n400: "n div 400 = p div 4" "(n + 1) div 400 = p' div 4"
    using zdiv_zmult2_eq [of 4 n 100] zdiv_zmult2_eq [of 4 "n + 1" 100] n100
    by simp_all
  have m: "m \<le> m'" "m' \<le> m + 1"
    unfolding m_def m'_def using div_succ_le [of 4 n] by (auto intro: zdiv_mono1)
  have p: "p \<le> p'" unfolding p_def p'_def using m by (auto intro: zdiv_mono1)
  have "p' - p \<le> m' - m"
  proof (cases "m' = m")
    case True
    then show ?thesis by (simp add: p_def p'_def)
  next
    case False
    with m have "m' = m + 1" by simp
    then show ?thesis using div_succ_le [of 25 m] by (simp add: p_def p'_def)
  qed
  moreover have "p div 4 \<le> p' div 4" using p by (auto intro: zdiv_mono1)
  ultimately show ?thesis
    unfolding n100 n400 m_def [symmetric] m'_def [symmetric] by simp
qed

lemma days_before_year_step: "days_before_year y + 365 \<le> days_before_year (y + 1)"
  using leap_count_mono [of "y - 1"] by (simp add: days_before_year_def algebra_simps)

lemma days_before_year_mono: "y \<le> y' \<Longrightarrow> days_before_year y \<le> days_before_year y'"
proof (induction "nat (y' - y)" arbitrary: y')
  case 0
  then show ?case by simp
next
  case (Suc k)
  then have "k = nat ((y' - 1) - y)" and "y \<le> y' - 1" by auto
  then have "days_before_year y \<le> days_before_year (y' - 1)" using Suc.hyps(1) by blast
  moreover have "days_before_year (y' - 1) \<le> days_before_year y'"
    using days_before_year_step [of "y' - 1"] by simp
  ultimately show ?case by simp
qed

lemma days_before_year_decomp:
  assumes "0 \<le> b" "b \<le> 3" "0 \<le> c" "c \<le> 24" "0 \<le> e" "e \<le> 3"
  shows "days_before_year (400 * a + 100 * b + 4 * c + e + 1)
           = 146097 * a + 36524 * b + 1461 * c + 365 * e"
proof -
  have 1: "(400 * a + 100 * b + 4 * c + e) div 4 = 100 * a + 25 * b + c"
    using div_decomp [of e 4 "100 * a + 25 * b + c"] assms by (simp add: algebra_simps)
  have 2: "(400 * a + 100 * b + 4 * c + e) div 100 = 4 * a + b"
    using div_decomp [of "4 * c + e" 100 "4 * a + b"] assms by (simp add: algebra_simps)
  have 3: "(400 * a + 100 * b + 4 * c + e) div 400 = a"
    using div_decomp [of "100 * b + 4 * c + e" 400 a] assms by (simp add: algebra_simps)
  show ?thesis
    unfolding days_before_year_def using 1 2 3 by (simp add: algebra_simps)
qed


lemma year_of_bracket:
  assumes "1 \<le> d"
  shows "days_before_year (year_of d) < d \<and> d \<le> days_before_year (year_of d + 1)"
proof -
  define n where "n = d - 1"
  define a r1 where "a = n div 146097" and "r1 = n mod 146097"
  define b r2 where "b = r1 div 36524" and "r2 = r1 mod 36524"
  define c r3 where "c = r2 div 1461" and "r3 = r2 mod 1461"
  define e r4 where "e = r3 div 365" and "r4 = r3 mod 365"
  have n: "n = 146097 * a + r1" "0 \<le> r1" "r1 < 146097"
    by (simp_all add: a_def r1_def)
  have r1: "r1 = 36524 * b + r2" "0 \<le> r2" "r2 < 36524"
    by (simp_all add: b_def r2_def)
  have r2: "r2 = 1461 * c + r3" "0 \<le> r3" "r3 < 1461"
    by (simp_all add: c_def r3_def)
  have r3: "r3 = 365 * e + r4" "0 \<le> r4" "r4 < 365"
    by (simp_all add: e_def r4_def)
  have bnd: "0 \<le> b" "b \<le> 4" "0 \<le> c" "c \<le> 24" "0 \<le> e" "e \<le> 4"
    using n r1 r2 r3 by linarith+
  have d: "d = 146097 * a + 36524 * b + 1461 * c + 365 * e + r4 + 1"
    using n r1 r2 r3 by (simp add: n_def)
  have y: "year_of d = (if e = 4 \<or> b = 4 then 400 * a + 100 * b + 4 * c + e
                        else 400 * a + 100 * b + 4 * c + e + 1)"
    by (simp add: year_of_def Let_def n_def [symmetric] a_def [symmetric] r1_def [symmetric]
        b_def [symmetric] r2_def [symmetric] c_def [symmetric] r3_def [symmetric]
        e_def [symmetric])
  consider (b4) "b = 4" | (e4) "b \<le> 3" "e = 4" | (reg) "b \<le> 3" "e \<le> 3"
    using bnd by linarith
  then show ?thesis
  proof cases
    case b4
    then have z: "r2 = 0" "c = 0" "e = 0" "r4 = 0" using n r1 r2 r3 bnd by linarith+
    have lo: "days_before_year (400 * a + 100 * 3 + 4 * 24 + 3 + 1) = 146097 * a + 36524 * 3 + 1461 * 24 + 365 * 3"
      by (rule days_before_year_decomp) simp_all
    have hi: "days_before_year (400 * (a + 1) + 100 * 0 + 4 * 0 + 0 + 1) = 146097 * (a + 1) + 36524 * 0 + 1461 * 0 + 365 * 0"
      by (rule days_before_year_decomp) simp_all
    have "year_of d = 400 * a + 400" using y b4 z by simp
    then show ?thesis using lo hi d b4 z by (simp add: algebra_simps)
  next
    case e4
    then have z: "r4 = 0" "c \<le> 23" using n r1 r2 r3 bnd by linarith+
    have lo: "days_before_year (400 * a + 100 * b + 4 * c + 3 + 1) = 146097 * a + 36524 * b + 1461 * c + 365 * 3"
      using bnd e4 by (intro days_before_year_decomp) simp_all
    have hi: "days_before_year (400 * a + 100 * b + 4 * (c + 1) + 0 + 1) = 146097 * a + 36524 * b + 1461 * (c + 1) + 365 * 0"
      using bnd e4 z by (intro days_before_year_decomp) simp_all
    have "year_of d = 400 * a + 100 * b + 4 * c + 4" using y e4 by simp
    then show ?thesis using lo hi d e4 z by (simp add: algebra_simps)
  next
    case reg
    have lo: "days_before_year (400 * a + 100 * b + 4 * c + e + 1) = 146097 * a + 36524 * b + 1461 * c + 365 * e"
      using bnd reg by (intro days_before_year_decomp) simp_all
    have yy: "year_of d = 400 * a + 100 * b + 4 * c + e + 1" using y reg by simp
    show ?thesis
      using lo d r3 days_before_year_step [of "400 * a + 100 * b + 4 * c + e + 1"]
      unfolding yy by linarith
  qed
qed

lemma year_of_iff:
  assumes "1 \<le> d"
  shows "year_of d = y \<longleftrightarrow> days_before_year y + 1 \<le> d \<and> d \<le> days_before_year (y + 1)"
proof
  assume "year_of d = y"
  then show "days_before_year y + 1 \<le> d \<and> d \<le> days_before_year (y + 1)"
    using year_of_bracket [OF assms] by auto
next
  assume h: "days_before_year y + 1 \<le> d \<and> d \<le> days_before_year (y + 1)"
  note b = year_of_bracket [OF assms]
  show "year_of d = y"
  proof (rule ccontr)
    assume "year_of d \<noteq> y"
    then consider "year_of d + 1 \<le> y" | "y + 1 \<le> year_of d" by linarith
    then show False
    proof cases
      case 1
      from days_before_year_mono [OF this] b h show False by linarith
    next
      case 2
      from days_before_year_mono [OF this] b h show False by linarith
    qed
  qed
qed


subsection \<open>The overlap rule\<close>







lemma str_nat_1: "str_nat 1 = ''1''"
  by (simp add: str_nat.simps digit_char_def DIGITS_def)

lemma team_key_1: "team_key 1 k = k @ '':1''"
  by (simp add: team_key_def py_str_def str_nat.simps digit_char_def DIGITS_def)






subsection \<open>The forbidden-date scan\<close>


lemma forbidden_scan_clear:
  "e < date_max \<Longrightarrow> (\<And>y. s \<le> y \<Longrightarrow> y \<le> e \<Longrightarrow> y \<notin> set F) \<Longrightarrow>
   forbidden_scan F s e = Inr None"
proof (induction F s e rule: forbidden_scan.induct)
  case (1 F d e)
  show ?case
  proof (cases "d \<le> e")
    case True
    then have nd: "next_day d = Inr (d + 1)" using 1 by (simp add: next_day_def)
    have "d \<notin> set F" using 1 True by simp
    moreover have "forbidden_scan F (d + 1) e = Inr None"
      using 1 True nd \<open>d \<notin> set F\<close> by (intro "1.IH") auto
    ultimately show ?thesis using True nd by (simp add: forbidden_scan.simps [of F d e])
  next
    case False
    then show ?thesis by (simp add: forbidden_scan.simps)
  qed
qed


lemma forbidden_scan_Some:
  "forbidden_scan F s e = Inr (Some x) \<Longrightarrow>
     x \<in> set F \<and> s \<le> x \<and> x \<le> e \<and> (\<forall>y. s \<le> y \<and> y < x \<longrightarrow> y \<notin> set F)"
proof (induction F s e rule: forbidden_scan.induct)
  case (1 F d e)
  show ?case
  proof (cases "d \<le> e \<and> d \<notin> set F")
    case True
    then obtain d' where nd: "next_day d = Inr d'"
      using 1 by (auto simp: forbidden_scan.simps [of F d e] split: sum.splits)
    then have d': "d' = d + 1" by (auto simp: next_day_def split: if_splits)
    have "forbidden_scan F d' e = Inr (Some x)"
      using 1 True nd by (simp add: forbidden_scan.simps [of F d e])
    with "1.IH" [of d'] True nd
    have "x \<in> set F \<and> d' \<le> x \<and> x \<le> e \<and> (\<forall>y. d' \<le> y \<and> y < x \<longrightarrow> y \<notin> set F)"
      by simp
    then have x: "x \<in> set F" "d' \<le> x" "x \<le> e"
      and rest: "\<And>y. d' \<le> y \<Longrightarrow> y < x \<Longrightarrow> y \<notin> set F" by auto
    have "y \<notin> set F" if "d \<le> y" "y < x" for y
    proof (cases "y = d")
      case True
      then show ?thesis using \<open>d \<le> e \<and> d \<notin> set F\<close> by simp
    next
      case False
      with that d' have "d' \<le> y" by simp
      with rest that show ?thesis by simp
    qed
    with x d' show ?thesis by auto
  next
    case False
    with 1 show ?thesis by (auto simp: forbidden_scan.simps [of F d e] split: if_splits)
  qed
qed

lemma forbidden_scan_None:
  "forbidden_scan F s e = Inr None \<Longrightarrow> s \<le> y \<Longrightarrow> y \<le> e \<Longrightarrow> y \<notin> set F"
proof (induction F s e rule: forbidden_scan.induct)
  case (1 F d e)
  from 1 have de: "d \<le> e" by simp
  have nf: "d \<notin> set F" using 1 de by (auto simp: forbidden_scan.simps [of F d e] split: if_splits)
  then obtain d' where nd: "next_day d = Inr d'"
    using 1 de by (auto simp: forbidden_scan.simps [of F d e] split: sum.splits)
  then have d': "d' = d + 1" by (auto simp: next_day_def split: if_splits)
  have rec: "forbidden_scan F d' e = Inr None"
    using 1 de nf nd by (simp add: forbidden_scan.simps [of F d e])
  show ?case
  proof (cases "y = d")
    case True
    then show ?thesis using nf by simp
  next
    case False
    with 1 d' have "d' \<le> y" by simp
    with "1.IH" [OF de nf nd rec] 1 show ?thesis by simp
  qed
qed

subsection \<open>The rule pipeline\<close>

lemma overlap_scan_kind:
  "overlap_scan policy role s e rows = Some m \<Longrightarrow>
     (\<exists>n a b. m = OverlapDenyAll n a b) \<or> (\<exists>n a b. m = OverlapSameRole n a b role)"
  by (induction rows) (auto split: if_splits)

lemma check_overlap_policy_kind:
  "check_overlap_policy d t s e role = Some m \<Longrightarrow>
     (\<exists>n a b. m = OverlapDenyAll n a b) \<or> (\<exists>n a b. m = OverlapSameRole n a b role)"
  by (auto simp: check_overlap_policy_def Let_def split: if_splits dest: overlap_scan_kind)

lemma py_int_14: "py_int ''14'' = Some 14"
  by (simp add: py_int_def strip_def is_space_def int_literal_def parse_nat_def is_digit_def
      digit_val_def DIGITS_def)

lemma py_int_28: "py_int ''28'' = Some 28"
  by (simp add: py_int_def strip_def is_space_def int_literal_def parse_nat_def is_digit_def
      digit_val_def DIGITS_def)

lemma setting_default: "get_team_setting db_default t k (Some v) = v"
  by (simp add: get_team_setting_def get_setting_def db_default_def)

lemma forbidden_default: "e < date_max \<Longrightarrow> is_range_forbidden db_default t s e = Inr None"
  by (simp add: is_range_forbidden_def db_default_def forbidden_scan_clear)

lemma overlap_default: "check_overlap_policy db_default t s e r = None"
  by (simp add: check_overlap_policy_def setting_default DEFAULT_OVERLAP_def)

lemma used_default_bob: "user_year_used_days db_default 2 2027 = Inr 0"
  by (simp add: user_year_used_days_def date_jan1_def date_dec31_def db_default_def request_a_def)

lemma year_740000: "year_of 740000 = 2027"
  by (simp add: year_of_def)

lemma bob_fields: "u_team_id bob = 1" "u_id bob = 2" "u_tg_id bob = Some 102" "u_role bob = ''DESIGNER''"
  by (simp_all add: bob_def)

lemma validate_accepts:
  "validate db_default bob 740000 740013 = Inr None"
  by (simp add: validate_def rule_forbidden_def rule_cap_def rule_overlap_def rule_quota_def
      forbidden_default date_max_def setting_default py_int_14 py_int_28 overlap_default
      year_740000 bob_fields used_default_bob)

lemma validate_inverted:
  "validate db_default bob 740013 740000 = Inr (Some EndBeforeStart)"
  by (simp add: validate_def)

lemma notify_default:
  "notify_admins_and_log (with_request db_default v) bob i t s e n c
     = [(Some 103, NewRequest i bob t s e n c)]"
  by (simp add: notify_admins_and_log_def with_request_def db_default_def alice_def bob_def
      carol_def ADMIN_ROLES_def)

text \<open>
  C2. A submission with \<open>end < start\<close> is rejected at once, whatever else holds. Otherwise
  the rules run in the order forbidden dates, per-request cap, overlap policy, annual
  quota and stop at the first that rejects; its reason is what the requester is sent, and
  the database is unchanged. When no rule rejects, exactly one request is appended, in
  status pending. (An error raised by a rule ends the run with no row created.)
\<close>

theorem process_apply_submission_pipeline:
  "process_apply_submission d usr type_id start_d end_d comment =
     (case validate d usr start_d end_d of
        Inl err \<Rightarrow> Inl err
      | Inr (Some reason) \<Rightarrow> Inr (d, [(u_tg_id usr, reason)])
      | Inr None \<Rightarrow>
          let v = new_request d usr type_id start_d end_d comment;
              d' = with_request d v
          in Inr (d', (u_tg_id usr, RequestSubmitted (v_id v))
                      # notify_admins_and_log d' usr (v_id v) type_id start_d end_d
                          (v_days v) comment)) \<and>
   (end_d < start_d \<longrightarrow> validate d usr start_d end_d = Inr (Some EndBeforeStart)) \<and>
   v_status (new_request d usr type_id start_d end_d comment) = Pending \<and>
   vacations (with_request d (new_request d usr type_id start_d end_d comment))
     = vacations d @ [new_request d usr type_id start_d end_d comment]"
  by (auto simp: process_apply_submission_def validate_def rule_forbidden_def rule_cap_def
      rule_overlap_def rule_quota_def reject_def insert_vacation_def new_request_def
      with_request_def Let_def split: sum.splits option.splits)

theorem process_apply_submission_pipeline_witness:
  "validate db_default bob 740000 740013 = Inr None \<and>
   process_apply_submission db_default bob 1 740000 740013 ''rest''
     = Inr (with_request db_default (new_request db_default bob 1 740000 740013 ''rest''),
            [(Some 102, RequestSubmitted 2),
             (Some 103, NewRequest 2 bob 1 740000 740013 14 ''rest'')]) \<and>
   validate db_default bob 740013 740000 = Inr (Some EndBeforeStart) \<and>
   process_apply_submission db_default bob 1 740013 740000 ''rest''
     = Inr (db_default, [(Some 102, EndBeforeStart)])"
  using process_apply_submission_pipeline [of db_default bob 1 740000 740013 "''rest''"]
    process_apply_submission_pipeline [of db_default bob 1 740013 740000 "''rest''"]
  by (simp add: validate_accepts validate_inverted notify_default bob_fields Let_def)
     (simp add: new_request_def db_default_def)

text \<open>
  C5. The per-request cap is a strict comparison: once the forbidden-date check has
  passed, the submission is rejected for the cap, citing the cap, exactly when its day
  count \<open>end - start + 1\<close> exceeds the cap. With cap 14 a request of 14 days is not
  rejected for the cap and one of 15 days is, with 14 in the message.
\<close>

theorem cap_rule_strict:
  assumes "start_d \<le> end_d"
    and "is_range_forbidden d (u_team_id usr) start_d end_d = Inr None"
    and "py_int (get_team_setting d (u_team_id usr) ''max_single_days'' (Some ''14'')) = Some cap"
  shows "(process_apply_submission d usr type_id start_d end_d comment
            = Inr (d, [(u_tg_id usr, MaxSingleExceeded cap)]))
         \<longleftrightarrow> end_d - start_d + 1 > cap"
proof
  assume "end_d - start_d + 1 > cap"
  with assms show "process_apply_submission d usr type_id start_d end_d comment
            = Inr (d, [(u_tg_id usr, MaxSingleExceeded cap)])"
    by (simp add: process_apply_submission_def reject_def)
next
  assume r: "process_apply_submission d usr type_id start_d end_d comment
            = Inr (d, [(u_tg_id usr, MaxSingleExceeded cap)])"
  show "end_d - start_d + 1 > cap"
  proof (rule ccontr)
    assume "\<not> end_d - start_d + 1 > cap"
    with assms r show False
      by (auto simp: process_apply_submission_def reject_def insert_vacation_def Let_def
          split: sum.splits option.splits if_splits dest: check_overlap_policy_kind)
  qed
qed

theorem cap_rule_strict_witness:
  "(740000::int) \<le> 740014 \<and>
   is_range_forbidden db_default (u_team_id bob) 740000 740014 = Inr None \<and>
   py_int (get_team_setting db_default (u_team_id bob) ''max_single_days'' (Some ''14'')) = Some 14 \<and>
   process_apply_submission db_default bob 1 740000 740014 []
     = Inr (db_default, [(u_tg_id bob, MaxSingleExceeded 14)]) \<and>
   process_apply_submission db_default bob 1 740000 740013 []
     \<noteq> Inr (db_default, [(u_tg_id bob, MaxSingleExceeded 14)])"
  using cap_rule_strict [of 740000 740014 db_default bob 14 1 "[]"]
    cap_rule_strict [of 740000 740013 db_default bob 14 1 "[]"]
  by (simp add: forbidden_default date_max_def setting_default py_int_14)

subsection \<open>The annual quota\<close>

lemma days_before_year_1: "days_before_year 1 = 0"
  by (simp add: days_before_year_def)

lemma days_before_year_10000: "days_before_year 10000 = date_max"
  by (simp add: days_before_year_def date_max_def)

lemma year_of_valid:
  assumes "valid_date d"
  shows "1 \<le> year_of d \<and> year_of d \<le> 9999"
proof -
  from assms have d: "1 \<le> d" "d \<le> date_max" by (simp_all add: valid_date_def date_min_def)
  note b = year_of_bracket [OF d(1)]
  have "1 \<le> year_of d"
  proof (rule ccontr)
    assume "\<not> 1 \<le> year_of d"
    then have "year_of d + 1 \<le> 1" by simp
    from days_before_year_mono [OF this] b d show False by (simp add: days_before_year_1)
  qed
  moreover have "year_of d \<le> 9999"
  proof (rule ccontr)
    assume "\<not> year_of d \<le> 9999"
    then have "10000 \<le> year_of d" by simp
    from days_before_year_mono [OF this] b d show False by (simp add: days_before_year_10000)
  qed
  ultimately show ?thesis by simp
qed

lemma user_year_used_days_eq:
  assumes "1 \<le> year" "year \<le> 9999" "dates_valid d"
  shows "user_year_used_days d uid year = Inr (annual_used_days d uid year)"
proof -
  have "filter (\<lambda>v. v_user_id v = uid \<and> v_status v = Approved
                  \<and> days_before_year year + 1 \<le> v_start_date v
                  \<and> v_start_date v \<le> days_before_year (year + 1)) (vacations d)
      = filter (\<lambda>v. v_user_id v = uid \<and> v_status v = Approved
                  \<and> year_of (v_start_date v) = year) (vacations d)"
  proof (rule filter_cong [OF refl])
    fix v assume "v \<in> set (vacations d)"
    with assms(3) have "1 \<le> v_start_date v"
      by (auto simp: dates_valid_def list_all_iff valid_date_def date_min_def)
    from year_of_iff [OF this, of year]
    show "(v_user_id v = uid \<and> v_status v = Approved
             \<and> days_before_year year + 1 \<le> v_start_date v
             \<and> v_start_date v \<le> days_before_year (year + 1))
        = (v_user_id v = uid \<and> v_status v = Approved \<and> year_of (v_start_date v) = year)"
      by auto
  qed
  with assms(1,2) show ?thesis
    by (simp add: user_year_used_days_def annual_used_days_def date_jan1_def date_dec31_def)
qed

lemma update_vacation_twice:
  "update_vacation (update_vacation d i st c) i st' c' = update_vacation d i st' c'"
  by (simp add: update_vacation_def comp_def)

lemma py_int_12: "py_int ''12'' = Some 12"
  by (simp add: py_int_def strip_def is_space_def int_literal_def parse_nat_def is_digit_def
      digit_val_def DIGITS_def)

lemma alice_fields: "u_team_id alice = 1" "u_id alice = 1" "u_tg_id alice = Some 101" "u_role alice = ''BAER''"
  by (simp_all add: alice_def)

lemma quota_setting: "get_team_setting db_quota 1 ''max_year_days'' (Some ''28'') = ''12''"
  by (simp add: get_team_setting_def get_setting_def db_quota_def team_key_1)

lemma cap_setting: "get_team_setting db_quota 1 ''max_single_days'' (Some ''14'') = ''14''"
  by (simp add: get_team_setting_def get_setting_def db_quota_def team_key_1)

lemma overlap_quota: "check_overlap_policy db_quota 1 s e r = None"
  by (simp add: check_overlap_policy_def get_team_setting_def get_setting_def db_quota_def
      team_key_1 DEFAULT_OVERLAP_def)

lemma forbidden_quota: "e < date_max \<Longrightarrow> is_range_forbidden db_quota t s e = Inr None"
  by (simp add: is_range_forbidden_def db_quota_def forbidden_scan_clear)

lemma dates_valid_quota: "dates_valid db_quota"
  by (simp add: dates_valid_def db_quota_def request_a_def request_b_def request_c_def
      valid_date_def date_min_def date_max_def)

lemma year_739495: "year_of 739495 = 2025"
  by (simp add: year_of_def)

lemma annual_used_quota: "annual_used_days db_quota 1 2025 = 10"
  by (simp add: annual_used_days_def db_quota_def request_a_def request_b_def request_c_def
      year_of_def)

text \<open>
  C4. For a user and a calendar year, \<open>user_year_used_days\<close> is the sum of the day counts
  of exactly the user's approved requests whose start date falls in that year; requests
  in any other status add nothing, so rejecting and approving a request again counts it
  once. Once the earlier rules have passed, the submission is rejected for the quota
  exactly when this sum plus the day count of the new request exceeds the team's annual
  quota.
\<close>

theorem annual_quota_spec:
  "(1 \<le> year \<and> year \<le> 9999 \<and> dates_valid d \<longrightarrow>
      user_year_used_days d uid year = Inr (annual_used_days d uid year)) \<and>
   annual_used_days (update_vacation (update_vacation d i Rejected c) i Approved c') uid year
     = annual_used_days (update_vacation d i Approved c') uid year \<and>
   (dates_valid d \<and> valid_date start_d \<and> start_d \<le> end_d \<and>
    is_range_forbidden d (u_team_id usr) start_d end_d = Inr None \<and>
    py_int (get_team_setting d (u_team_id usr) ''max_single_days'' (Some ''14'')) = Some cap \<and>
    end_d - start_d + 1 \<le> cap \<and>
    check_overlap_policy d (u_team_id usr) start_d end_d (u_role usr) = None \<and>
    py_int (get_team_setting d (u_team_id usr) ''max_year_days'' (Some ''28'')) = Some quota \<longrightarrow>
      (process_apply_submission d usr type_id start_d end_d comment
         = Inr (d, [(u_tg_id usr, YearLimitExceeded (year_of start_d)
                        (annual_used_days d (u_id usr) (year_of start_d)) quota)])
       \<longleftrightarrow> annual_used_days d (u_id usr) (year_of start_d) + (end_d - start_d + 1) > quota))"
proof (intro conjI impI)
  assume "1 \<le> year \<and> year \<le> 9999 \<and> dates_valid d"
  then show "user_year_used_days d uid year = Inr (annual_used_days d uid year)"
    by (simp add: user_year_used_days_eq)
next
  show "annual_used_days (update_vacation (update_vacation d i Rejected c) i Approved c') uid year
     = annual_used_days (update_vacation d i Approved c') uid year"
    by (simp add: update_vacation_twice)
next
  assume a: "dates_valid d \<and> valid_date start_d \<and> start_d \<le> end_d \<and>
    is_range_forbidden d (u_team_id usr) start_d end_d = Inr None \<and>
    py_int (get_team_setting d (u_team_id usr) ''max_single_days'' (Some ''14'')) = Some cap \<and>
    end_d - start_d + 1 \<le> cap \<and>
    check_overlap_policy d (u_team_id usr) start_d end_d (u_role usr) = None \<and>
    py_int (get_team_setting d (u_team_id usr) ''max_year_days'' (Some ''28'')) = Some quota"
  then have u: "user_year_used_days d (u_id usr) (year_of start_d)
      = Inr (annual_used_days d (u_id usr) (year_of start_d))"
    using year_of_valid [of start_d] by (simp add: user_year_used_days_eq)
  from a u show "process_apply_submission d usr type_id start_d end_d comment
         = Inr (d, [(u_tg_id usr, YearLimitExceeded (year_of start_d)
                        (annual_used_days d (u_id usr) (year_of start_d)) quota)])
       \<longleftrightarrow> annual_used_days d (u_id usr) (year_of start_d) + (end_d - start_d + 1) > quota"
    by (auto simp: process_apply_submission_def reject_def insert_vacation_def Let_def)
qed

theorem annual_quota_spec_witness:
  "(1::int) \<le> 2025 \<and> (2025::int) \<le> 9999 \<and> dates_valid db_quota \<and>
   user_year_used_days db_quota 1 2025 = Inr 10 \<and>
   valid_date 739495 \<and> (739495::int) \<le> 739497 \<and>
   is_range_forbidden db_quota (u_team_id alice) 739495 739497 = Inr None \<and>
   py_int (get_team_setting db_quota (u_team_id alice) ''max_single_days'' (Some ''14'')) = Some 14 \<and>
   (739497::int) - 739495 + 1 \<le> 14 \<and>
   check_overlap_policy db_quota (u_team_id alice) 739495 739497 (u_role alice) = None \<and>
   py_int (get_team_setting db_quota (u_team_id alice) ''max_year_days'' (Some ''28'')) = Some 12 \<and>
   process_apply_submission db_quota alice 1 739495 739497 []
     = Inr (db_quota, [(u_tg_id alice, YearLimitExceeded 2025 10 12)])"
  using annual_quota_spec [of 2025 db_quota 1 3 "[]" "[]" 739495 739497 alice 14 12 1 "[]"]
  by (simp add: dates_valid_quota annual_used_quota alice_fields forbidden_quota date_max_def
      cap_setting quota_setting py_int_14 py_int_12 overlap_quota year_739495 valid_date_def
      date_min_def)

subsection \<open>Decimal text\<close>

lemma length_takeWhile_nth:
  "distinct xs \<Longrightarrow> n < length xs \<Longrightarrow> length (takeWhile (\<lambda>x. x \<noteq> xs ! n) xs) = n"
  by (induction xs arbitrary: n) (auto simp: nth_Cons split: nat.splits)

lemma digit_char_in: "n < 10 \<Longrightarrow> digit_char n \<in> set DIGITS"
  unfolding digit_char_def by (rule nth_mem) (simp add: DIGITS_def)

lemma digit_val_char: "n < 10 \<Longrightarrow> digit_val (digit_char n) = n"
  unfolding digit_val_def digit_char_def by (rule length_takeWhile_nth) (simp_all add: DIGITS_def)

lemma str_nat_digits: "set (str_nat n) \<subseteq> set DIGITS"
proof (induction n rule: str_nat.induct)
  case (1 n)
  show ?case
  proof (cases "n < 10")
    case True
    then show ?thesis using digit_char_in [of n] by (simp add: str_nat.simps [of n])
  next
    case False
    with 1 digit_char_in [of "n mod 10"] show ?thesis by (simp add: str_nat.simps [of n])
  qed
qed

lemma str_nat_not_Nil: "str_nat n \<noteq> []"
  by (simp add: str_nat.simps [of n])

lemma parse_digits_all:
  "s \<noteq> [] \<Longrightarrow> set s \<subseteq> set DIGITS \<Longrightarrow>
   parse_digits acc s = Some (foldl (\<lambda>a c. 10 * a + digit_val c) acc s)"
proof (induction acc s rule: parse_digits.induct)
  case (1 acc)
  then show ?case by simp
next
  case (2 acc c)
  then show ?case by (simp add: is_digit_def)
next
  case (3 acc c d cs)
  then have "d \<noteq> CHR ''_''" by (auto simp: DIGITS_def)
  with 3 show ?case by (simp add: is_digit_def)
qed

lemma foldl_str_nat: "foldl (\<lambda>a c. 10 * a + digit_val c) 0 (str_nat n) = n"
proof (induction n rule: str_nat.induct)
  case (1 n)
  show ?case
  proof (cases "n < 10")
    case True
    then show ?thesis by (simp add: str_nat.simps [of n] digit_val_char)
  next
    case False
    with 1 show ?thesis by (simp add: str_nat.simps [of n] digit_val_char)
  qed
qed

lemma parse_nat_str_nat: "parse_nat (str_nat n) = Some n"
  by (simp add: parse_nat_def str_nat_not_Nil parse_digits_all str_nat_digits foldl_str_nat)

lemma digits_no_space: "c \<in> set DIGITS \<Longrightarrow> \<not> is_space c"
  by (auto simp: DIGITS_def is_space_def)

lemma strip_no_space: "\<forall>c \<in> set s. \<not> is_space c \<Longrightarrow> strip s = s"
proof -
  assume a: "\<forall>c \<in> set s. \<not> is_space c"
  then have "dropWhile is_space s = s" by (cases s) auto
  moreover from a have "dropWhile is_space (rev s) = rev s" by (cases "rev s") auto
  ultimately show ?thesis by (simp add: strip_def)
qed

lemma py_str_chars: "set (py_str v) \<subseteq> insert (CHR ''-'') (set DIGITS)"
  using str_nat_digits by (auto simp: py_str_def)

lemma strip_py_str: "strip (py_str v) = py_str v"
proof (rule strip_no_space, rule ballI)
  fix c assume "c \<in> set (py_str v)"
  with py_str_chars have "c = CHR ''-'' \<or> c \<in> set DIGITS" by auto
  then show "\<not> is_space c" using digits_no_space by (auto simp: is_space_def)
qed

lemma int_literal_str_nat: "int_literal (str_nat n) = Some (int n)"
proof -
  obtain c cs where s: "str_nat n = c # cs" using str_nat_not_Nil by (cases "str_nat n") auto
  then have "c \<in> set DIGITS" using str_nat_digits [of n] by auto
  then have "c \<noteq> CHR ''-''" "c \<noteq> CHR ''+''" by (auto simp: DIGITS_def)
  with s parse_nat_str_nat [of n] show ?thesis by (simp add: int_literal_def)
qed

lemma py_int_py_str: "py_int (py_str v) = Some v"
proof (cases "v < 0")
  case True
  then show ?thesis
    using strip_py_str [of v] by (simp add: py_int_def py_str_def int_literal_def parse_nat_str_nat)
next
  case False
  then show ?thesis
    using strip_py_str [of v] by (simp add: py_int_def py_str_def int_literal_str_nat)
qed

lemma split_on_absent: "sep \<notin> set s \<Longrightarrow> split_on sep s = [s]"
  by (induction s) auto

lemma py_str_no_colon: "CHR '':'' \<notin> set (py_str v)"
  using py_str_chars [of v] by (auto simp: DIGITS_def)

lemma admin_action_cb_approve:
  "admin_action_cb d x (''admin_action:approve:'' @ py_str r)
     = (replace_admin_action d x r ''approve'', ReplyChosen ''approve'' r)"
  by (simp add: admin_action_cb_def split_on_absent py_str_no_colon py_int_py_str)

lemma admin_action_cb_reject:
  "admin_action_cb d x (''admin_action:reject:'' @ py_str r)
     = (replace_admin_action d x r ''reject'', ReplyChosen ''reject'' r)"
  by (simp add: admin_action_cb_def split_on_absent py_str_no_colon py_int_py_str)

subsection \<open>Decisions\<close>

lemma vacations_delete_admin_actions [simp]:
  "vacations (delete_admin_actions d x) = vacations d"
  by (simp add: delete_admin_actions_def)

lemma vacations_update_vacation:
  "vacations (update_vacation d vac_id (decided_status action) comment)
     = map (decide vac_id action comment) (vacations d)"
  by (simp add: update_vacation_def decide_def)

lemma finalize_found:
  assumes "select_vacation_user d vac_id = Some (v, u)"
  shows "finalize_admin_decision d admin_tg vac_id action comment =
     (delete_admin_actions (update_vacation d vac_id (decided_status action) comment) admin_tg,
      [(u_tg_id u, Decision vac_id (decided_status action) (if comment = [] then DASH else comment))],
      Some (decided_status action))"
  using assms by (simp add: finalize_admin_decision_def decided_status_def Let_def)

lemma finalize_missing:
  assumes "select_vacation_user d vac_id = None"
  shows "finalize_admin_decision d admin_tg vac_id action comment = (d, [], None)"
  using assms by (simp add: finalize_admin_decision_def)

lemma skip_found:
  assumes "select_admin_action d admin_tg = Some row"
    and "select_vacation_user d (a_vacation_id row) = Some (v, u)"
  shows "admin_skip_comment_cb d admin_tg =
     (delete_admin_actions
        (update_vacation d (a_vacation_id row) (decided_status (a_action row)) []) admin_tg,
      [(u_tg_id u, Decision (a_vacation_id row) (decided_status (a_action row)) DASH)],
      [ReplyMarked (a_vacation_id row) (decided_status (a_action row))])"
  using assms by (simp add: admin_skip_comment_cb_def decided_status_def Let_def)

lemma skip_agrees_when_found:
  assumes "select_admin_action d admin_tg = Some row"
    and "select_vacation_user d (a_vacation_id row) = Some (v, u)"
  shows "fst (admin_skip_comment_cb d admin_tg)
           = fst (finalize_admin_decision d admin_tg (a_vacation_id row) (a_action row) [])"
    and "fst (snd (admin_skip_comment_cb d admin_tg))
           = fst (snd (finalize_admin_decision d admin_tg (a_vacation_id row) (a_action row) []))"
  using assms by (simp_all add: skip_found finalize_found)

lemma process_apply_submission_rows:
  assumes "process_apply_submission d usr type_id start_d end_d cm = Inr (d', out)"
  shows "vacations d' = vacations d \<or>
         vacations d' = vacations d @ [new_request d usr type_id start_d end_d cm]"
  using assms
  by (auto simp: process_apply_submission_def reject_def insert_vacation_def new_request_def
      Let_def split: if_splits sum.splits option.splits)

lemma select_request_a: "select_vacation_user db_default 1 = Some (request_a, alice)"
  by (simp add: select_vacation_user_def join_users_def db_default_def request_a_def alice_def
      bob_def carol_def)

text \<open>
  C1, as the code has it. Finalize, by text or by the skip shortcut, has no guard on the
  current status: every row with the id of the referenced request gets the status of the
  recorded action and the comment, whatever its status was, and every other row is left
  as it is; when the request is not found no row changes. A submission leaves the
  existing rows as they are.
\<close>

theorem finalize_overwrites:
  "(select_vacation_user d vac_id = None \<longrightarrow>
      finalize_admin_decision d admin_tg vac_id action comment = (d, [], None)) \<and>
   (select_vacation_user d vac_id \<noteq> None \<longrightarrow>
      vacations (fst (finalize_admin_decision d admin_tg vac_id action comment))
        = map (decide vac_id action comment) (vacations d) \<and>
      snd (snd (finalize_admin_decision d admin_tg vac_id action comment))
        = Some (decided_status action)) \<and>
   (select_admin_action d admin_tg = Some row \<and>
    select_vacation_user d (a_vacation_id row) \<noteq> None \<longrightarrow>
      vacations (fst (admin_skip_comment_cb d admin_tg))
        = map (decide (a_vacation_id row) (a_action row) []) (vacations d)) \<and>
   (process_apply_submission d usr type_id start_d end_d cm = Inr (d', out) \<longrightarrow>
      take (length (vacations d)) (vacations d') = vacations d)"
proof (intro conjI impI)
  assume "select_vacation_user d vac_id = None"
  then show "finalize_admin_decision d admin_tg vac_id action comment = (d, [], None)"
    by (rule finalize_missing)
next
  assume "select_vacation_user d vac_id \<noteq> None"
  then obtain v u where f: "select_vacation_user d vac_id = Some (v, u)" by auto
  show "vacations (fst (finalize_admin_decision d admin_tg vac_id action comment))
        = map (decide vac_id action comment) (vacations d)"
    by (simp add: finalize_found [OF f] vacations_update_vacation)
  show "snd (snd (finalize_admin_decision d admin_tg vac_id action comment))
        = Some (decided_status action)"
    by (simp add: finalize_found [OF f])
next
  assume "select_admin_action d admin_tg = Some row \<and>
    select_vacation_user d (a_vacation_id row) \<noteq> None"
  then obtain v u where r: "select_admin_action d admin_tg = Some row"
    and f: "select_vacation_user d (a_vacation_id row) = Some (v, u)" by auto
  show "vacations (fst (admin_skip_comment_cb d admin_tg))
        = map (decide (a_vacation_id row) (a_action row) []) (vacations d)"
    by (simp add: skip_found [OF r f] vacations_update_vacation)
next
  assume "process_apply_submission d usr type_id start_d end_d cm = Inr (d', out)"
  then show "take (length (vacations d)) (vacations d') = vacations d"
    by (auto dest: process_apply_submission_rows)
qed

theorem finalize_overwrites_witness:
  "select_vacation_user db_default 1 \<noteq> None \<and>
   vacations (fst (finalize_admin_decision db_default 103 1 ''reject'' ''late''))
     = map (decide 1 ''reject'' ''late'') (vacations db_default) \<and>
   select_vacation_user db_default 9 = None \<and>
   finalize_admin_decision db_default 103 9 ''reject'' ''late'' = (db_default, [], None)"
  using finalize_overwrites [of db_default 1 103 "''reject''" "''late''"]
    finalize_overwrites [of db_default 9 103 "''reject''" "''late''"]
  by (simp add: select_request_a)
     (simp add: select_vacation_user_def join_users_def db_default_def request_a_def alice_def
      bob_def carol_def)

text \<open>
  C1 as stated fails: request A is approved, and finalizing a reject on it makes it
  rejected and replaces its comment.
\<close>

theorem finalize_terminal_counterexample:
  "v_status request_a = Approved \<and>
   vacations db_default = [request_a] \<and>
   vacations (fst (finalize_admin_decision db_default 103 1 ''reject'' ''late''))
     = [request_a\<lparr>v_status := Rejected, v_admin_comment := ''late''\<rparr>] \<and>
   vacations (fst (finalize_admin_decision db_default 103 1 ''reject'' ''late''))
     \<noteq> vacations db_default"
  by (simp add: finalize_found [OF select_request_a] vacations_update_vacation)
     (simp add: decide_def decided_status_def db_default_def request_a_def)

lemma find_filter_not: "find P (filter (\<lambda>a. \<not> P a) xs) = None"
  by (induction xs) auto

lemma find_append_none: "find P xs = None \<Longrightarrow> find P (xs @ ys) = find P ys"
  by (induction xs) (auto split: if_splits)

lemma actions_of_replace_same:
  "actions_of (replace_admin_action d x r a) x
     = [\<lparr>a_admin_tg_id = x, a_vacation_id = r, a_action = a\<rparr>]"
  by (simp add: actions_of_def replace_admin_action_def)

lemma actions_of_replace_other:
  "y \<noteq> x \<Longrightarrow> actions_of (replace_admin_action d x r a) y = actions_of d y"
proof -
  assume "y \<noteq> x"
  then have "filter (\<lambda>a. a_admin_tg_id a = y) (filter (\<lambda>a. a_admin_tg_id a \<noteq> x) xs)
      = filter (\<lambda>a. a_admin_tg_id a = y) xs" for xs :: "admin_action list"
    by (induction xs) auto
  with \<open>y \<noteq> x\<close> show ?thesis by (simp add: actions_of_def replace_admin_action_def)
qed

lemma select_replace_same:
  "select_admin_action (replace_admin_action d x r a) x
     = Some \<lparr>a_admin_tg_id = x, a_vacation_id = r, a_action = a\<rparr>"
  by (simp add: select_admin_action_def replace_admin_action_def find_append_none
      find_filter_not)

lemma single_slot_replace_admin_action:
  "single_slot d \<Longrightarrow> single_slot (replace_admin_action d x r a)"
  by (auto simp: single_slot_def replace_admin_action_def distinct_map_filter)

lemma single_slot_admin_action_cb:
  "single_slot d \<Longrightarrow> single_slot (fst (admin_action_cb d x data))"
  by (auto simp: admin_action_cb_def single_slot_replace_admin_action
      split: list.splits option.splits)

lemma single_slot_delete_admin_actions:
  "single_slot d \<Longrightarrow> single_slot (delete_admin_actions d x)"
  by (auto simp: single_slot_def delete_admin_actions_def distinct_map_filter)

lemma single_slot_update_vacation:
  "single_slot (update_vacation d i st c) = single_slot d"
  by (simp add: single_slot_def update_vacation_def)

lemma single_slot_finalize:
  "single_slot d \<Longrightarrow> single_slot (fst (finalize_admin_decision d x i a c))"
  by (auto simp: finalize_admin_decision_def Let_def single_slot_delete_admin_actions
      single_slot_update_vacation split: option.splits)

lemma single_slot_skip:
  "single_slot d \<Longrightarrow> single_slot (fst (admin_skip_comment_cb d x))"
  by (auto simp: admin_skip_comment_cb_def Let_def single_slot_delete_admin_actions
      single_slot_update_vacation split: option.splits)

lemma select_vacation_user_replace [simp]:
  "select_vacation_user (replace_admin_action d x r a) i = select_vacation_user d i"
  by (simp add: select_vacation_user_def replace_admin_action_def)

lemma vacations_replace [simp]: "vacations (replace_admin_action d x r a) = vacations d"
  by (simp add: replace_admin_action_def)

lemma actions_of_delete_same: "actions_of (delete_admin_actions d x) x = []"
  by (simp add: actions_of_def delete_admin_actions_def)

lemma filter_decide_other:
  "r1 \<noteq> r2 \<Longrightarrow> filter (\<lambda>r. v_id r = r1) (map (decide r2 a c) rows)
     = filter (\<lambda>r. v_id r = r1) rows"
  by (induction rows) (auto simp: decide_def)

lemma py_str_2: "py_str 2 = ''2''"
  by (simp add: py_str_def str_nat.simps digit_char_def DIGITS_def)

lemma py_str_4: "py_str 4 = ''4''"
  by (simp add: py_str_def str_nat.simps digit_char_def DIGITS_def)

lemma single_slot_pending: "single_slot db_pending"
  by (simp add: single_slot_def db_pending_def)

lemma select_request_d: "select_vacation_user db_pending 4 = Some (request_d, bob)"
  by (simp add: select_vacation_user_def join_users_def db_pending_def request_b_def
      request_d_def alice_def bob_def carol_def)

text \<open>
  C6. An admin has at most one row in \<open>admin_actions\<close>: recording a decision keeps the
  single slot, leaves exactly the new row for that admin and does not touch the rows of
  other admins. When admin X records approve for request 1, then reject for request 2,
  and then finalizes with an empty comment (by the shortcut or by \<open>finalize_admin_decision\<close>),
  request 2 is rejected with an empty comment, the rows of request 1 are as before, and
  X has no row left.
\<close>

theorem single_slot_replace:
  "(single_slot d \<longrightarrow>
      single_slot (fst (admin_action_cb d x data)) \<and>
      single_slot (fst (admin_skip_comment_cb d x)) \<and>
      single_slot (fst (finalize_admin_decision d x r a cm))) \<and>
   actions_of (replace_admin_action d x r a) x
     = [\<lparr>a_admin_tg_id = x, a_vacation_id = r, a_action = a\<rparr>] \<and>
   (y \<noteq> x \<longrightarrow> actions_of (replace_admin_action d x r a) y = actions_of d y) \<and>
   (r1 \<noteq> r2 \<and> select_vacation_user d r2 \<noteq> None \<longrightarrow>
      (let d1 = fst (admin_action_cb d x (''admin_action:approve:'' @ py_str r1));
           d2 = fst (admin_action_cb d1 x (''admin_action:reject:'' @ py_str r2));
           d3 = fst (admin_skip_comment_cb d2 x)
       in actions_of d1 x = [\<lparr>a_admin_tg_id = x, a_vacation_id = r1, a_action = ''approve''\<rparr>] \<and>
          actions_of d2 x = [\<lparr>a_admin_tg_id = x, a_vacation_id = r2, a_action = ''reject''\<rparr>] \<and>
          vacations d3 = map (decide r2 ''reject'' []) (vacations d) \<and>
          filter (\<lambda>r. v_id r = r1) (vacations d3) = filter (\<lambda>r. v_id r = r1) (vacations d) \<and>
          actions_of d3 x = [] \<and>
          fst (finalize_admin_decision d2 x r2 ''reject'' []) = d3))"
proof (intro conjI impI)
  assume "single_slot d"
  then show "single_slot (fst (admin_action_cb d x data))" by (rule single_slot_admin_action_cb)
next
  assume "single_slot d"
  then show "single_slot (fst (admin_skip_comment_cb d x))" by (rule single_slot_skip)
next
  assume "single_slot d"
  then show "single_slot (fst (finalize_admin_decision d x r a cm))" by (rule single_slot_finalize)
next
  show "actions_of (replace_admin_action d x r a) x
     = [\<lparr>a_admin_tg_id = x, a_vacation_id = r, a_action = a\<rparr>]"
    by (rule actions_of_replace_same)
next
  assume "y \<noteq> x"
  then show "actions_of (replace_admin_action d x r a) y = actions_of d y"
    by (rule actions_of_replace_other)
next
  assume a: "r1 \<noteq> r2 \<and> select_vacation_user d r2 \<noteq> None"
  then obtain v u where f: "select_vacation_user d r2 = Some (v, u)" by auto
  define d1 where "d1 = replace_admin_action d x r1 ''approve''"
  define d2 where "d2 = replace_admin_action d1 x r2 ''reject''"
  define row where "row = \<lparr>a_admin_tg_id = x, a_vacation_id = r2, a_action = ''reject''\<rparr>"
  have s: "select_admin_action d2 x = Some row"
    by (simp add: d2_def row_def select_replace_same)
  have f2: "select_vacation_user d2 (a_vacation_id row) = Some (v, u)"
    by (simp add: d2_def d1_def row_def f)
  have f2': "select_vacation_user d2 r2 = Some (v, u)"
    by (simp add: d2_def d1_def f)
  have sk: "fst (admin_skip_comment_cb d2 x)
      = delete_admin_actions (update_vacation d2 r2 (decided_status ''reject'') []) x"
    by (simp add: skip_found [OF s f2]) (simp add: row_def)
  have v: "vacations (fst (admin_skip_comment_cb d2 x)) = map (decide r2 ''reject'' []) (vacations d)"
    by (simp add: sk vacations_update_vacation) (simp add: d2_def d1_def)
  show "let d1 = fst (admin_action_cb d x (''admin_action:approve:'' @ py_str r1));
           d2 = fst (admin_action_cb d1 x (''admin_action:reject:'' @ py_str r2));
           d3 = fst (admin_skip_comment_cb d2 x)
       in actions_of d1 x = [\<lparr>a_admin_tg_id = x, a_vacation_id = r1, a_action = ''approve''\<rparr>] \<and>
          actions_of d2 x = [\<lparr>a_admin_tg_id = x, a_vacation_id = r2, a_action = ''reject''\<rparr>] \<and>
          vacations d3 = map (decide r2 ''reject'' []) (vacations d) \<and>
          filter (\<lambda>r. v_id r = r1) (vacations d3) = filter (\<lambda>r. v_id r = r1) (vacations d) \<and>
          actions_of d3 x = [] \<and>
          fst (finalize_admin_decision d2 x r2 ''reject'' []) = d3"
    unfolding Let_def admin_action_cb_approve admin_action_cb_reject fst_conv
      d1_def [symmetric] d2_def [symmetric]
  proof (intro conjI)
    show "actions_of d1 x = [\<lparr>a_admin_tg_id = x, a_vacation_id = r1, a_action = ''approve''\<rparr>]"
      by (simp add: d1_def actions_of_replace_same)
    show "actions_of d2 x = [\<lparr>a_admin_tg_id = x, a_vacation_id = r2, a_action = ''reject''\<rparr>]"
      by (simp add: d2_def actions_of_replace_same)
    show "vacations (fst (admin_skip_comment_cb d2 x)) = map (decide r2 ''reject'' []) (vacations d)"
      by (rule v)
    show "filter (\<lambda>r. v_id r = r1) (vacations (fst (admin_skip_comment_cb d2 x)))
        = filter (\<lambda>r. v_id r = r1) (vacations d)"
      using a by (simp add: v filter_decide_other)
    show "actions_of (fst (admin_skip_comment_cb d2 x)) x = []"
      by (simp add: sk actions_of_delete_same)
    show "fst (finalize_admin_decision d2 x r2 ''reject'' []) = fst (admin_skip_comment_cb d2 x)"
      by (simp add: sk finalize_found [OF f2'])
  qed
qed

theorem single_slot_replace_witness:
  "single_slot db_pending \<and> (2::int) \<noteq> 4 \<and> select_vacation_user db_pending 4 \<noteq> None \<and>
   v_status request_b = Pending \<and>
   single_slot (fst (admin_action_cb db_pending 103 ''admin_action:approve:2'')) \<and>
   vacations (fst (admin_skip_comment_cb
       (fst (admin_action_cb (fst (admin_action_cb db_pending 103 ''admin_action:approve:2''))
               103 ''admin_action:reject:4'')) 103))
     = [request_b, request_d\<lparr>v_status := Rejected, v_admin_comment := []\<rparr>]"
  using single_slot_replace [of db_pending 103 "''admin_action:approve:2''" 2 "''approve''" "[]" 101 2 4]
  by (simp add: single_slot_pending select_request_d py_str_2 py_str_4 Let_def)
     (simp add: db_pending_def decide_def decided_status_def request_b_def request_d_def)

lemma carol_lookup: "get_user_by_tg_id db_stale 103 = Some carol"
  by (simp add: get_user_by_tg_id_def db_stale_def alice_def bob_def carol_def)

lemma carol_admin: "is_admin_role (u_role carol)"
  by (simp add: is_admin_role_def carol_def ADMIN_ROLES_def)

lemma strip_skip: "strip ''/skip'' = ''/skip''"
  by (simp add: strip_def is_space_def)

lemma strip_ok: "strip ''ok'' = ''ok''"
  by (simp add: strip_def is_space_def)

lemma stale_action:
  "select_admin_action db_stale 103
     = Some \<lparr>a_admin_tg_id = 103, a_vacation_id = 7, a_action = ''approve''\<rparr>"
  by (simp add: select_admin_action_def db_stale_def)

lemma stale_request: "select_vacation_user db_stale 7 = None"
  by (simp add: select_vacation_user_def join_users_def db_stale_def)

text \<open>
  C7 fails where the recorded request no longer exists: the skip shortcut deletes the
  admin's row and answers that the request was not found, while
  \<open>finalize_admin_decision\<close> with the empty comment, and the text handler that calls it
  (with \<open>/skip\<close>, its empty comment, or with any other text), leave the row in place and
  send no answer. Where the request exists the two paths agree (lemma
  \<open>skip_agrees_when_found\<close>).
\<close>

theorem skip_and_text_differ_on_missing_request:
  "admin_actions db_stale \<noteq> [] \<and>
   admin_skip_comment_cb db_stale 103 = (db_stale\<lparr>admin_actions := []\<rparr>, [], [ReplyNotFound]) \<and>
   finalize_admin_decision db_stale 103 7 ''approve'' [] = (db_stale, [], None) \<and>
   admin_text_handler no_dates db_stale no_wizard 103 ''/skip''
     = Some (db_stale, no_wizard, [], []) \<and>
   admin_text_handler no_dates db_stale no_wizard 103 ''ok''
     = Some (db_stale, no_wizard, [], [])"
proof (intro conjI)
  show "admin_actions db_stale \<noteq> []" by (simp add: db_stale_def)
  show "admin_skip_comment_cb db_stale 103 = (db_stale\<lparr>admin_actions := []\<rparr>, [], [ReplyNotFound])"
    by (simp add: admin_skip_comment_cb_def stale_action stale_request)
       (simp add: delete_admin_actions_def db_stale_def)
  show "finalize_admin_decision db_stale 103 7 ''approve'' [] = (db_stale, [], None)"
    by (rule finalize_missing [OF stale_request])
  show "admin_text_handler no_dates db_stale no_wizard 103 ''/skip''
     = Some (db_stale, no_wizard, [], [])"
    by (simp add: admin_text_handler_def carol_lookup carol_admin strip_skip stale_action
        finalize_missing [OF stale_request] no_wizard_def)
  show "admin_text_handler no_dates db_stale no_wizard 103 ''ok''
     = Some (db_stale, no_wizard, [], [])"
    by (simp add: admin_text_handler_def carol_lookup carol_admin strip_ok stale_action
        finalize_missing [OF stale_request] no_wizard_def)
qed

subsection \<open>Forbidden dates\<close>

lemma forbidden_set_delete:
  "forbidden_set (delete_forbidden_date d t x) t'
     = (if t' = t then forbidden_set d t - {x} else forbidden_set d t')"
  by (auto simp: forbidden_set_def delete_forbidden_date_def)

lemma insert_forbidden_range_rows:
  "insert_forbidden_range rows t nt d1 d2 = Inr rows' \<Longrightarrow>
     rows' = rows @ map (\<lambda>x. \<lparr>f_team_id = t, f_date = x, f_note = nt\<rparr>) [d1..d2]"
proof (induction rows t nt d1 d2 rule: insert_forbidden_range.induct)
  case (1 rows t nt d d2)
  show ?case
  proof (cases "d \<le> d2")
    case True
    then obtain d' where nd: "next_day d = Inr d'"
      using 1 by (auto simp: insert_forbidden_range.simps [of rows t nt d d2] split: sum.splits)
    then have d': "d' = d + 1" by (auto simp: next_day_def split: if_splits)
    have "insert_forbidden_range (rows @ [\<lparr>f_team_id = t, f_date = d, f_note = nt\<rparr>]) t nt d' d2
        = Inr rows'"
      using 1 True nd by (simp add: insert_forbidden_range.simps [of rows t nt d d2])
    from "1.IH" [OF True nd this] True d' show ?thesis
      by (simp add: upto_rec1 [of d d2])
  next
    case False
    with 1 show ?thesis by (simp add: insert_forbidden_range.simps [of rows t nt d d2])
  qed
qed

lemma forbidden_dates_of_range:
  "map f_date (filter (\<lambda>r. f_team_id r = t')
                 (map (\<lambda>x. \<lparr>f_team_id = t, f_date = x, f_note = nt\<rparr>) xs))
     = (if t' = t then xs else [])"
  by (induction xs) (simp_all add: comp_def)

lemma forbidden_set_insert_range:
  assumes "insert_forbidden_range (forbidden_dates d) t nt d1 d2 = Inr rows'"
  shows "forbidden_set (d\<lparr>forbidden_dates := rows'\<rparr>) t'
           = (if t' = t then forbidden_set d t \<union> {d1..d2} else forbidden_set d t')"
  unfolding insert_forbidden_range_rows [OF assms] forbidden_set_def
  by (simp add: forbidden_dates_of_range del: set_map set_filter) auto


lemma is_range_forbidden_after_removal:
  assumes "end_d < date_max"
    and "forbidden_set d t \<inter> {start_d..end_d} = {x}"
  shows "is_range_forbidden (delete_forbidden_date d t x) t start_d end_d = Inr None"
proof -
  define F where "F = map f_date (filter (\<lambda>r. f_team_id r = t)
                              (forbidden_dates (delete_forbidden_date d t x)))"
  have "set F = forbidden_set (delete_forbidden_date d t x) t"
    by (simp only: F_def forbidden_set_def)
  then have F: "set F = forbidden_set d t - {x}" by (simp add: forbidden_set_delete)
  have clear: "y \<notin> set F" if "start_d \<le> y" "y \<le> end_d" for y
  proof
    assume "y \<in> set F"
    then have y: "y \<in> forbidden_set d t" "y \<noteq> x" by (simp_all add: F)
    with that have "y \<in> forbidden_set d t \<inter> {start_d..end_d}" by simp
    then have "y = x" by (simp only: assms(2) singleton_iff)
    with y show False by simp
  qed
  from assms(1) clear have "forbidden_scan F start_d end_d = Inr None"
    by (rule forbidden_scan_clear)
  then show ?thesis by (simp only: is_range_forbidden_def F_def)
qed

lemma process_rejects_forbidden:
  assumes "start_d \<le> end_d" "is_range_forbidden d (u_team_id usr) start_d end_d = Inr (Some x)"
  shows "process_apply_submission d usr type_id start_d end_d cm
           = Inr (d, [(u_tg_id usr, ForbiddenInRange x)])"
  using assms by (simp add: process_apply_submission_def reject_def)





subsection \<open>Cancelling\<close>

lemma find_request_b: "find (\<lambda>v. v_id v = 2) (vacations db_quota) = Some request_b"
  by (simp add: db_quota_def request_a_def request_b_def)

lemma find_request_a: "find (\<lambda>v. v_id v = 1) (vacations db_quota) = Some request_a"
  by (simp add: db_quota_def request_a_def)

text \<open>
  C8. For a request that exists: \<open>cancel_request\<close> fails with NotOwner when the user did
  not create it, and with NotPending when its owner cancels it after it was approved or
  rejected; a failure returns no new database, so the status stays as it was. It succeeds
  exactly for a pending request of that user, whose status becomes cancelled while every
  other request stays as it is.
\<close>

theorem cancel_request_spec:
  "find (\<lambda>v. v_id v = request_id) (vacations d) = Some v \<Longrightarrow>
     (v_user_id v \<noteq> by_user \<longrightarrow> cancel_request d request_id by_user = Inl NotOwner) \<and>
     (v_user_id v = by_user \<and> (v_status v = Approved \<or> v_status v = Rejected) \<longrightarrow>
        cancel_request d request_id by_user = Inl NotPending) \<and>
     ((\<exists>d'. cancel_request d request_id by_user = Inr d') \<longleftrightarrow>
        v_user_id v = by_user \<and> v_status v = Pending) \<and>
     (\<forall>d'. cancel_request d request_id by_user = Inr d' \<longrightarrow>
        vacations d' = map (\<lambda>r. if v_id r = request_id then r\<lparr>v_status := Cancelled\<rparr> else r)
                         (vacations d))"
  by (auto simp: cancel_request_def)

theorem cancel_request_spec_witness:
  "find (\<lambda>v. v_id v = 1) (vacations db_quota) = Some request_a \<and>
   v_user_id request_a = 1 \<and> v_status request_a = Approved \<and>
   cancel_request db_quota 1 1 = Inl NotPending \<and>
   cancel_request db_quota 1 2 = Inl NotOwner \<and>
   find (\<lambda>v. v_id v = 2) (vacations db_quota) = Some request_b \<and>
   v_user_id request_b = 1 \<and> v_status request_b = Pending \<and>
   (\<exists>d'. cancel_request db_quota 2 1 = Inr d')"
  using cancel_request_spec [OF find_request_a, of 1] cancel_request_spec [OF find_request_a, of 2]
    cancel_request_spec [OF find_request_b, of 1]
  by (simp add: find_request_a find_request_b) (simp add: request_a_def request_b_def)

subsection \<open>The numeric settings\<close>

lemma overlap_key_not_numeric: "\<not> numeric_key (team_key t ''overlap_policy'')"
  by (simp add: numeric_key_def team_key_def)

lemma py_str_28: "''28'' = py_str 28"
  by (simp add: py_str_def str_nat.simps digit_char_def DIGITS_def)

lemma py_str_14: "''14'' = py_str 14"
  by (simp add: py_str_def str_nat.simps digit_char_def DIGITS_def)

lemma ok_set_numeric:
  "numeric_settings_ok d \<Longrightarrow> numeric_settings_ok (set_setting d key (py_str v))"
  by (auto simp: numeric_settings_ok_def set_setting_def)

lemma ok_set_other:
  "numeric_settings_ok d \<Longrightarrow> \<not> numeric_key key \<Longrightarrow> numeric_settings_ok (set_setting d key val)"
  by (auto simp: numeric_settings_ok_def set_setting_def)

lemma ok_set_team_numeric:
  "numeric_settings_ok d \<Longrightarrow> numeric_settings_ok (set_team_setting d t k (py_str v))"
  by (simp add: set_team_setting_def ok_set_numeric)

lemma ok_set_team_overlap:
  "numeric_settings_ok d \<Longrightarrow> numeric_settings_ok (set_team_setting d t ''overlap_policy'' pol)"
  by (simp add: set_team_setting_def ok_set_other overlap_key_not_numeric)

lemma ok_insert_or_ignore_numeric:
  "numeric_settings_ok d \<Longrightarrow> numeric_settings_ok (insert_or_ignore_setting d key (py_str v))"
  by (simp add: insert_or_ignore_setting_def ok_set_numeric split: option.splits)

lemma ok_insert_or_ignore_other:
  "numeric_settings_ok d \<Longrightarrow> \<not> numeric_key key \<Longrightarrow>
   numeric_settings_ok (insert_or_ignore_setting d key val)"
  by (simp add: insert_or_ignore_setting_def ok_set_other split: option.splits)

lemma ok_same_settings:
  "numeric_settings_ok d \<Longrightarrow> settings d' = settings d \<Longrightarrow> numeric_settings_ok d'"
  by (simp add: numeric_settings_ok_def)

lemma settings_finalize:
  "settings (fst (finalize_admin_decision d x i a c)) = settings d"
  by (simp add: finalize_admin_decision_def update_vacation_def delete_admin_actions_def Let_def
      split: option.splits prod.splits)

lemma admin_text_handler_settings:
  assumes "admin_text_handler f d ud x raw = Some (d', ud', out, reps)"
  shows "settings d' = settings d \<or>
         (\<exists>t v. d' = set_team_setting d t ''max_year_days'' (py_str v)) \<or>
         (\<exists>t v. d' = set_team_setting d t ''max_single_days'' (py_str v))"
proof (cases "select_admin_action d x")
  case None
  with assms show ?thesis
    by (auto simp: admin_text_handler_def Let_def delete_forbidden_date_def
        split: if_splits option.splits sum.splits prod.splits)
next
  case (Some row)
  obtain d1 o1 r1 where fin: "finalize_admin_decision d x (a_vacation_id row) (a_action row)
      (if strip raw = ''/skip'' then [] else strip raw) = (d1, o1, r1)"
    by (cases "finalize_admin_decision d x (a_vacation_id row) (a_action row)
      (if strip raw = ''/skip'' then [] else strip raw)") auto
  then have "settings d1 = settings d"
    using settings_finalize [of d x "a_vacation_id row" "a_action row"
        "if strip raw = ''/skip'' then [] else strip raw"] by simp
  with assms Some fin show ?thesis
    by (auto simp: admin_text_handler_def Let_def delete_forbidden_date_def
        split: if_splits option.splits)
qed

lemma reachable_numeric_ok: "reachable d \<Longrightarrow> numeric_settings_ok d"
proof (induction rule: reachable.induct)
  case (fresh d)
  then show ?case by (simp add: numeric_settings_ok_def)
next
  case (init_db d team_id)
  note 1 = ok_insert_or_ignore_numeric [OF init_db.IH]
  note 2 = ok_insert_or_ignore_numeric [OF 1]
  show ?case
    unfolding init_db_settings_def Let_def py_str_28 py_str_14
    by (rule ok_insert_or_ignore_other [OF 2 overlap_key_not_numeric])
next
  case (reg_team_name d team_id)
  note 1 = ok_set_team_numeric [OF reg_team_name.IH]
  note 2 = ok_set_team_numeric [OF 1]
  show ?case
    unfolding reg_team_name_settings_def Let_def py_str_28 py_str_14
    by (rule ok_set_team_overlap [OF 2])
next
  case (boot_year d team_id raw_text)
  then show ?case by (simp add: boot_max_year_def ok_set_team_numeric split: option.splits)
next
  case (boot_single d team_id raw_text)
  then show ?case by (simp add: boot_max_single_def ok_set_team_numeric split: option.splits)
next
  case (admin_text d fromisoformat ud admin_tg raw_text d' ud' out replies)
  from admin_text_handler_settings [OF admin_text.hyps(2)] admin_text.IH
  show ?case by (auto simp: ok_set_team_numeric intro: ok_same_settings)
next
  case (overlap_policy d team_id pol)
  then show ?case by (simp add: ok_set_team_overlap)
next
  case (other_tables d d')
  then show ?case by (simp add: ok_same_settings)
qed

lemma numeric_setting_parses:
  assumes "numeric_settings_ok d" "numeric_key (team_key t k)"
  shows "\<exists>v. py_int (get_team_setting d t k (Some (py_str n))) = Some v"
proof (cases "settings d (team_key t k)")
  case None
  then show ?thesis by (simp add: get_team_setting_def get_setting_def py_int_py_str)
next
  case (Some val)
  with assms obtain v where "val = py_str v" by (auto simp: numeric_settings_ok_def)
  with Some show ?thesis by (simp add: get_team_setting_def get_setting_def py_int_py_str)
qed

lemma max_year_key_numeric: "numeric_key (team_key t ''max_year_days'')"
  by (auto simp: numeric_key_def)

lemma max_single_key_numeric: "numeric_key (team_key t ''max_single_days'')"
  by (auto simp: numeric_key_def)

lemma no_value_error:
  assumes "numeric_settings_ok d" "valid_date start_d"
  shows "process_apply_submission d usr type_id start_d end_d cm \<noteq> Inl ValueError"
proof -
  obtain c where c: "py_int (get_team_setting d (u_team_id usr) ''max_single_days'' (Some ''14'')) = Some c"
    using numeric_setting_parses [OF assms(1) max_single_key_numeric, of "u_team_id usr" 14]
    by (auto simp: py_str_14)
  obtain q where q: "py_int (get_team_setting d (u_team_id usr) ''max_year_days'' (Some ''28'')) = Some q"
    using numeric_setting_parses [OF assms(1) max_year_key_numeric, of "u_team_id usr" 28]
    by (auto simp: py_str_28)
  obtain u where u: "user_year_used_days d (u_id usr) (year_of start_d) = Inr u"
    using year_of_valid [OF assms(2)]
    by (simp add: user_year_used_days_def date_jan1_def date_dec31_def)
  have "is_range_forbidden d (u_team_id usr) start_d end_d \<noteq> Inl ValueError"
  proof -
    have "forbidden_scan F s e \<noteq> Inl ValueError" for F s e
    proof (induction F s e rule: forbidden_scan.induct)
      case (1 F s e)
      then show ?case
        by (auto simp: forbidden_scan.simps [of F s e] next_day_def split: if_splits)
    qed
    then show ?thesis by (simp add: is_range_forbidden_def)
  qed
  then show ?thesis
    using c q u
    by (auto simp: process_apply_submission_def reject_def insert_vacation_def Let_def
        split: sum.splits option.splits if_splits)
qed

lemma carol_default: "get_user_by_tg_id db_default 103 = Some carol"
  by (simp add: get_user_by_tg_id_def db_default_def alice_def bob_def carol_def)

lemma no_action_default: "select_admin_action db_default 103 = None"
  by (simp add: select_admin_action_def db_default_def)

lemma py_int_30: "py_int ''30'' = Some 30"
  by (simp add: py_int_def strip_def is_space_def int_literal_def parse_nat_def is_digit_def
      digit_val_def DIGITS_def)

lemma py_str_30: "py_str 30 = ''30''"
  by (simp add: py_str_def str_nat.simps digit_char_def DIGITS_def)

lemma py_int_abc: "py_int (strip ''abc'') = None"
  by (simp add: py_int_def strip_def is_space_def int_literal_def parse_nat_def is_digit_def
      DIGITS_def)

lemma strip_30: "strip ''30'' = ''30''"
  by (simp add: strip_def is_space_def)

lemma set_year_30:
  "admin_text_handler no_dates db_default set_max_year_wizard 103 ''30''
     = Some (db_year_30, no_wizard, [], [ReplyYearLimitSet 30])"
  by (simp add: admin_text_handler_def carol_default carol_admin no_action_default
      set_max_year_wizard_def strip_30 py_int_30 py_str_30 no_wizard_def db_year_30_def)
     (simp add: carol_def)

lemma reachable_default: "reachable db_default"
  by (rule reachable.fresh) (simp add: db_default_def)

lemma reachable_year_30: "reachable db_year_30"
  by (rule reachable.admin_text [OF reachable_default set_year_30])

lemma year_30_setting: "get_team_setting db_year_30 1 ''max_year_days'' (Some ''28'') = ''30''"
  by (simp add: db_year_30_def get_team_setting_def get_setting_def set_team_setting_def
      set_setting_def)

text \<open>
  C10. In every database the bot reaches from an empty \<open>settings\<close> table, each value
  stored under a key of \<open>max_year_days\<close> or \<open>max_single_days\<close> is the decimal text of
  an integer, so the two \<open>int(...)\<close> of a submission succeed for every team (an absent
  key gives the default \<open>'28'\<close> or \<open>'14'\<close>) and a submission with a calendar date as
  start never ends in ValueError. A text that is no integer is answered with the prompt
  and stores nothing, in the admin wizards and in the bootstrap conversation.
\<close>

theorem numeric_settings_parse:
  assumes "reachable d"
  shows
  "numeric_settings_ok d \<and>
   (\<exists>v. py_int (get_team_setting d t ''max_single_days'' (Some ''14'')) = Some v) \<and>
   (\<exists>v. py_int (get_team_setting d t ''max_year_days'' (Some ''28'')) = Some v) \<and>
   (valid_date start_d \<longrightarrow>
      process_apply_submission d usr type_id start_d end_d cm \<noteq> Inl ValueError) \<and>
   (py_int (strip raw) = None \<longrightarrow>
      boot_max_year d t raw = (d, BOOT_MAX_YEAR) \<and>
      boot_max_single d t raw = (d, BOOT_MAX_SINGLE)) \<and>
   (get_user_by_tg_id d x = Some c \<and> is_admin_role (u_role c) \<and>
    select_admin_action d x = None \<and>
    (admin_wizard ud = Some ''set_max_year'' \<or> admin_wizard ud = Some ''set_max_single'') \<and>
    py_int (strip raw) = None \<longrightarrow>
      admin_text_handler f d ud x raw = Some (d, ud, [], [ReplySendInteger]))"
proof -
  note ok = reachable_numeric_ok [OF assms]
  have 1: "\<exists>v. py_int (get_team_setting d t ''max_single_days'' (Some ''14'')) = Some v"
    using numeric_setting_parses [OF ok max_single_key_numeric, of t 14] by (simp add: py_str_14)
  have 2: "\<exists>v. py_int (get_team_setting d t ''max_year_days'' (Some ''28'')) = Some v"
    using numeric_setting_parses [OF ok max_year_key_numeric, of t 28] by (simp add: py_str_28)
  have 3: "valid_date start_d \<longrightarrow>
      process_apply_submission d usr type_id start_d end_d cm \<noteq> Inl ValueError"
    using no_value_error [OF ok] by simp
  have 4: "py_int (strip raw) = None \<longrightarrow>
      boot_max_year d t raw = (d, BOOT_MAX_YEAR) \<and>
      boot_max_single d t raw = (d, BOOT_MAX_SINGLE)"
    by (simp add: boot_max_year_def boot_max_single_def)
  have 5: "get_user_by_tg_id d x = Some c \<and> is_admin_role (u_role c) \<and>
    select_admin_action d x = None \<and>
    (admin_wizard ud = Some ''set_max_year'' \<or> admin_wizard ud = Some ''set_max_single'') \<and>
    py_int (strip raw) = None \<longrightarrow>
      admin_text_handler f d ud x raw = Some (d, ud, [], [ReplySendInteger])"
    by (auto simp: admin_text_handler_def Let_def)
  from ok 1 2 3 4 5 show ?thesis by blast
qed

theorem numeric_settings_parse_witness:
  "reachable db_year_30 \<and>
   py_int (get_team_setting db_year_30 1 ''max_year_days'' (Some ''28'')) = Some 30 \<and>
   reachable db_default \<and>
   get_user_by_tg_id db_default 103 = Some carol \<and> is_admin_role (u_role carol) \<and>
   select_admin_action db_default 103 = None \<and>
   admin_wizard set_max_year_wizard = Some ''set_max_year'' \<and>
   py_int (strip ''abc'') = None \<and>
   admin_text_handler no_dates db_default set_max_year_wizard 103 ''abc''
     = Some (db_default, set_max_year_wizard, [], [ReplySendInteger])"
  using numeric_settings_parse [OF reachable_year_30, of 1 739495 bob 1 739497 "[]" "''abc''" 103 carol
      set_max_year_wizard no_dates]
    numeric_settings_parse [OF reachable_default, of 1 739495 bob 1 739497 "[]" "''abc''" 103 carol
      set_max_year_wizard no_dates]
  by (simp add: reachable_year_30 reachable_default year_30_setting py_int_30 carol_default
      carol_admin no_action_default py_int_abc set_max_year_wizard_def)

end
